theory Spec2Isabelle
  imports Complex_Main
begin

section \<open>JavaScript values used by the metrics parsers\<close>

text \<open>
  A JavaScript \<open>number\<close> is either \<open>NaN\<close> or a finite value. Finite values are carried
  exactly, as rationals: the parsers only read decimal integers, multiply them by the
  literals 1000 and 1024, divide them by the literal 1024 and add them up, and on the
  integers below \<open>2^53\<close> that \<open>kubectl top\<close> prints these operations are exact in
  double precision as well. Rounding of larger values is not part of this development.
\<close>

datatype jsnum = NaN | Num rat

fun jadd :: "jsnum \<Rightarrow> jsnum \<Rightarrow> jsnum" where
  "jadd (Num a) (Num b) = Num (a + b)"
| "jadd _ _ = NaN"

text \<open>\<open>x * c\<close> and \<open>x / c\<close> for a numeric literal \<open>c\<close> (the source divides by 1024 only).\<close>

fun jtimes :: "jsnum \<Rightarrow> rat \<Rightarrow> jsnum" where
  "jtimes (Num a) c = Num (a * c)"
| "jtimes NaN c = NaN"

fun jover :: "jsnum \<Rightarrow> rat \<Rightarrow> jsnum" where
  "jover (Num a) c = Num (a / c)"
| "jover NaN c = NaN"

text \<open>\<open>Math.floor\<close>.\<close>

fun jfloor :: "jsnum \<Rightarrow> jsnum" where
  "jfloor (Num a) = Num (of_int \<lfloor>a\<rfloor>)"
| "jfloor NaN = NaN"

section \<open>Strings\<close>

text \<open>
  White space as \<open>String.prototype.trim\<close>, the pattern \<open>\s\<close> and \<open>parseInt\<close> see it, on
  the characters below U+0100: TAB, LF, VT, FF, CR, SP and NBSP.
\<close>

definition isWhite :: "char \<Rightarrow> bool" where
  "isWhite c = (c = CHR 0x09 \<or> c = CHR 0x0A \<or> c = CHR 0x0B \<or> c = CHR 0x0C \<or> c = CHR 0x0D
                \<or> c = CHR 0x20 \<or> c = CHR 0xA0)"

definition isDigit :: "char \<Rightarrow> bool" where
  "isDigit c = (c \<in> set ''0123456789'')"

definition digitChar :: "nat \<Rightarrow> char" where
  "digitChar d = ''0123456789'' ! d"

definition digitVal :: "char \<Rightarrow> nat" where
  "digitVal c = of_char c - 48"

definition digitsVal :: "string \<Rightarrow> nat" where
  "digitsVal z = foldl (\<lambda>acc c. 10 * acc + digitVal c) 0 z"

text \<open>
  The decimal text of a non-negative integer: what a template literal or \<open>Array.join\<close>
  makes of such a number.
\<close>

fun numToString :: "nat \<Rightarrow> string" where
  "numToString n = (if n < 10 then [digitChar n]
                    else numToString (n div 10) @ [digitChar (n mod 10)])"

declare numToString.simps [simp del]

text \<open>
  \<open>Number.parseInt(s, 10)\<close>: leading white space is skipped, one sign is read, then the
  longest run of decimal digits; whatever follows is ignored. With no digit the result
  is \<open>NaN\<close>.
\<close>

definition parseInt :: "string \<Rightarrow> jsnum" where
  "parseInt s =
     (let S = dropWhile isWhite s;
          neg = (S \<noteq> [] \<and> hd S = CHR ''-'');
          S' = (if S \<noteq> [] \<and> (hd S = CHR ''-'' \<or> hd S = CHR ''+'') then tl S else S);
          Z = takeWhile isDigit S'
      in if Z = [] then NaN
         else Num (if neg then - of_nat (digitsVal Z) else of_nat (digitsVal Z)))"

text \<open>\<open>s.endsWith(suf)\<close> and \<open>s.slice(0, -k)\<close>.\<close>

definition endsWith :: "string \<Rightarrow> string \<Rightarrow> bool" where
  "endsWith s suf = (length suf \<le> length s \<and> drop (length s - length suf) s = suf)"

definition slice0 :: "string \<Rightarrow> nat \<Rightarrow> string" where
  "slice0 s k = take (length s - k) s"

definition trim :: "string \<Rightarrow> string" where
  "trim s = rev (dropWhile isWhite (rev (dropWhile isWhite s)))"

text \<open>\<open>s.split(sep)\<close> for a separator of one character; the result is never empty.\<close>

fun splitOn :: "char \<Rightarrow> string \<Rightarrow> string list" where
  "splitOn sep [] = [[]]"
| "splitOn sep (c # cs) =
     (if c = sep then [] # splitOn sep cs
      else (case splitOn sep cs of [] \<Rightarrow> [[c]] | l # ls \<Rightarrow> (c # l) # ls))"

text \<open>
  \<open>s.split(/\s+/)\<close>: the pieces between maximal runs of white space. A string that
  begins or ends with white space yields an empty first or last piece, and the empty
  string yields one empty piece.
\<close>

function splitWs :: "string \<Rightarrow> string list" where
  "splitWs s =
     (let tok = takeWhile (\<lambda>c. \<not> isWhite c) s;
          rest = dropWhile (\<lambda>c. \<not> isWhite c) s
      in if rest = [] then [tok] else tok # splitWs (dropWhile isWhite rest))"
  by pat_completeness auto
termination
proof (relation "measure length")
  show "wf (measure length)" by simp
next
  fix s :: string and tok rest
  assume r: "rest = dropWhile (\<lambda>c. \<not> isWhite c) s" and ne: "rest \<noteq> []"
  from ne obtain c cs where rc: "rest = c # cs" by (cases rest) auto
  from r ne have "\<not> \<not> isWhite (hd rest)"
    using hd_dropWhile[of "\<lambda>c. \<not> isWhite c" s] by blast
  with rc have "isWhite c" by simp
  then have "length (dropWhile isWhite rest) \<le> length cs"
    using rc length_dropWhile_le[of isWhite cs] by simp
  moreover have "length rest \<le> length s" using r length_dropWhile_le by metis
  ultimately show "(dropWhile isWhite rest, s) \<in> measure length" using rc by simp
qed

declare splitWs.simps [simp del]

text \<open>\<open>xs.join(sep)\<close> on strings.\<close>

fun joinWith :: "string \<Rightarrow> string list \<Rightarrow> string" where
  "joinWith sep [] = []"
| "joinWith sep [x] = x"
| "joinWith sep (x # y # ys) = x @ sep @ joinWith sep (y # ys)"

text \<open>
  \<open>[...new Set(xs)]\<close>: the elements of \<open>xs\<close> in the order of their first occurrence.
\<close>

definition setToList :: "'a list \<Rightarrow> 'a list" where
  "setToList xs = foldl (\<lambda>seen x. if x \<in> set seen then seen else seen @ [x]) [] xs"

section \<open>Parsing the output of \<open>kubectl top\<close>\<close>

text \<open>
  The CPU field is decoded by the same conditional in all six parsers; \<open>podCpu\<close> is the
  value it assigns in \<open>parsePodMetrics\<close>, \<open>addCpu\<close> the update \<open>cpuUsage += ...\<close> of the
  aggregating parsers.
\<close>

definition podCpu :: "string \<Rightarrow> jsnum" where
  "podCpu cpuStr =
     (if endsWith cpuStr ''m'' then parseInt (slice0 cpuStr 1)
      else jtimes (parseInt cpuStr) 1000)"

definition addCpu :: "jsnum \<Rightarrow> string \<Rightarrow> jsnum" where
  "addCpu cpuUsage cpuStr =
     (if endsWith cpuStr ''m'' then jadd cpuUsage (parseInt (slice0 cpuStr 1))
      else jadd cpuUsage (jtimes (parseInt cpuStr) 1000))"

text \<open>
  The memory field of \<open>parsePodMetrics\<close> in \<open>src/lib/server-actions.ts\<close>: \<open>memory\<close>
  starts at 0 and only the suffixes \<open>Mi\<close>, \<open>Gi\<close> and \<open>Ki\<close> assign it.
\<close>

definition podMemory_sa :: "string \<Rightarrow> jsnum" where
  "podMemory_sa memStr =
     (if endsWith memStr ''Mi'' then parseInt (slice0 memStr 2)
      else if endsWith memStr ''Gi'' then jtimes (parseInt (slice0 memStr 2)) 1024
      else if endsWith memStr ''Ki'' then jfloor (jover (parseInt (slice0 memStr 2)) 1024)
      else Num 0)"

text \<open>
  The memory field of \<open>parsePodMetrics\<close> in
  \<open>src/app/api/kubectl/namespace-details/route.ts\<close>, which adds the suffix \<open>m\<close> and the
  plain byte count.
\<close>

definition podMemory_nd :: "string \<Rightarrow> jsnum" where
  "podMemory_nd memStr =
     (if endsWith memStr ''Mi'' then parseInt (slice0 memStr 2)
      else if endsWith memStr ''Gi'' then jtimes (parseInt (slice0 memStr 2)) 1024
      else if endsWith memStr ''Ki'' then jfloor (jover (parseInt (slice0 memStr 2)) 1024)
      else if endsWith memStr ''m'' then jover (jover (parseInt (slice0 memStr 1)) 1024) 1024
      else jover (jover (parseInt memStr) 1024) 1024)"

text \<open>
  The update \<open>memoryUsage += ...\<close> of \<open>parseNamespaceMetrics\<close> (both copies) and of
  \<open>parseNodeMetrics\<close> in \<open>src/lib/server-actions.ts\<close>: a field with another suffix
  leaves the total as it is.
\<close>

definition addMemory_sa :: "jsnum \<Rightarrow> string \<Rightarrow> jsnum" where
  "addMemory_sa memoryUsage memStr =
     (if endsWith memStr ''Mi'' then jadd memoryUsage (parseInt (slice0 memStr 2))
      else if endsWith memStr ''Gi''
        then jadd memoryUsage (jtimes (parseInt (slice0 memStr 2)) 1024)
      else if endsWith memStr ''Ki''
        then jadd memoryUsage (jfloor (jover (parseInt (slice0 memStr 2)) 1024))
      else memoryUsage)"

text \<open>
  The same update in \<open>parseNodeMetrics\<close> of the cluster route (the second file kept in
  \<open>src/lib/types.ts\<close>).
\<close>

definition addMemory_cl :: "jsnum \<Rightarrow> string \<Rightarrow> jsnum" where
  "addMemory_cl memoryUsage memStr =
     (if endsWith memStr ''Mi'' then jadd memoryUsage (parseInt (slice0 memStr 2))
      else if endsWith memStr ''Gi''
        then jadd memoryUsage (jtimes (parseInt (slice0 memStr 2)) 1024)
      else if endsWith memStr ''Ki''
        then jadd memoryUsage (jfloor (jover (parseInt (slice0 memStr 2)) 1024))
      else if endsWith memStr ''m''
        then jadd memoryUsage (jover (jover (parseInt (slice0 memStr 1)) 1024) 1024)
      else jadd memoryUsage (jover (jover (parseInt memStr) 1024) 1024))"

text \<open>The lines of the output: \<open>metricsOutput.trim().split("\n")\<close>.\<close>

definition outputLines :: "string \<Rightarrow> string list" where
  "outputLines metricsOutput = splitOn (CHR 0x0A) (trim metricsOutput)"

text \<open>The fields of a line: \<open>line.trim().split(/\s+/)\<close>.\<close>

definition lineParts :: "string \<Rightarrow> string list" where
  "lineParts line = splitWs (trim line)"

record podMetric =
  cpu :: jsnum
  memory :: jsnum

text \<open>
  \<open>parsePodMetrics\<close>: the body of \<open>lines.forEach\<close> is a step on the result object, which
  is a map from pod names to their sample.
\<close>

definition podLine_sa :: "(string \<rightharpoonup> podMetric) \<Rightarrow> string \<Rightarrow> (string \<rightharpoonup> podMetric)" where
  "podLine_sa result line =
     (let parts = lineParts line
      in if length parts \<ge> 3
         then result(parts ! 0 \<mapsto> \<lparr>cpu = podCpu (parts ! 1), memory = podMemory_sa (parts ! 2)\<rparr>)
         else result)"

definition parsePodMetrics_sa :: "string \<Rightarrow> (string \<rightharpoonup> podMetric)" where
  "parsePodMetrics_sa metricsOutput = foldl podLine_sa Map.empty (outputLines metricsOutput)"

definition podLine_nd :: "(string \<rightharpoonup> podMetric) \<Rightarrow> string \<Rightarrow> (string \<rightharpoonup> podMetric)" where
  "podLine_nd result line =
     (let parts = lineParts line
      in if length parts \<ge> 3
         then result(parts ! 0 \<mapsto> \<lparr>cpu = podCpu (parts ! 1), memory = podMemory_nd (parts ! 2)\<rparr>)
         else result)"

definition parsePodMetrics_nd :: "string \<Rightarrow> (string \<rightharpoonup> podMetric)" where
  "parsePodMetrics_nd metricsOutput = foldl podLine_nd Map.empty (outputLines metricsOutput)"

text \<open>\<open>parseNamespaceMetrics\<close>, the same text in both files that have it.\<close>

record usageTotals =
  cpuUsage :: jsnum
  memoryUsage :: jsnum

definition namespaceLine :: "usageTotals \<Rightarrow> string \<Rightarrow> usageTotals" where
  "namespaceLine acc line =
     (let parts = lineParts line
      in if length parts \<ge> 3
         then \<lparr>cpuUsage = addCpu (cpuUsage acc) (parts ! 1),
               memoryUsage = addMemory_sa (memoryUsage acc) (parts ! 2)\<rparr>
         else acc)"

definition parseNamespaceMetrics :: "string \<Rightarrow> usageTotals" where
  "parseNamespaceMetrics metricsOutput =
     foldl namespaceLine \<lparr>cpuUsage = Num 0, memoryUsage = Num 0\<rparr> (outputLines metricsOutput)"

text \<open>\<open>parseNodeMetrics\<close>, which also counts an assumed capacity for each node line.\<close>

record nodeTotals = usageTotals +
  cpuTotal :: jsnum
  memoryTotal :: jsnum

definition nodeLine_sa :: "nodeTotals \<Rightarrow> string \<Rightarrow> nodeTotals" where
  "nodeLine_sa acc line =
     (let parts = lineParts line
      in if length parts \<ge> 3
         then \<lparr>cpuUsage = addCpu (cpuUsage acc) (parts ! 1),
               memoryUsage = addMemory_sa (memoryUsage acc) (parts ! 2),
               cpuTotal = jadd (cpuTotal acc) (Num 4000),
               memoryTotal = jadd (memoryTotal acc) (Num 16384)\<rparr>
         else acc)"

definition parseNodeMetrics_sa :: "string \<Rightarrow> nodeTotals" where
  "parseNodeMetrics_sa metricsOutput =
     foldl nodeLine_sa
       \<lparr>cpuUsage = Num 0, memoryUsage = Num 0, cpuTotal = Num 0, memoryTotal = Num 0\<rparr>
       (outputLines metricsOutput)"

definition nodeLine_cl :: "nodeTotals \<Rightarrow> string \<Rightarrow> nodeTotals" where
  "nodeLine_cl acc line =
     (let parts = lineParts line
      in if length parts \<ge> 3
         then \<lparr>cpuUsage = addCpu (cpuUsage acc) (parts ! 1),
               memoryUsage = addMemory_cl (memoryUsage acc) (parts ! 2),
               cpuTotal = jadd (cpuTotal acc) (Num 4000),
               memoryTotal = jadd (memoryTotal acc) (Num 16384)\<rparr>
         else acc)"

definition parseNodeMetrics_cl :: "string \<Rightarrow> nodeTotals" where
  "parseNodeMetrics_cl metricsOutput =
     foldl nodeLine_cl
       \<lparr>cpuUsage = Num 0, memoryUsage = Num 0, cpuTotal = Num 0, memoryTotal = Num 0\<rparr>
       (outputLines metricsOutput)"

section \<open>The cluster objects read by the association functions\<close>

text \<open>
  The functions take what \<open>kubectl get -o json\<close> returns, typed \<open>any\<close>. Each record
  below holds the properties that the functions read. A guard chain such as
  \<open>volume.configMap && volume.configMap.name\<close> is one optional field, \<open>None\<close> when a
  link of the chain is missing; \<open>truthy\<close> is the test that the chain makes, which an
  empty string fails as well. An object or an array that is present passes such a test
  even when it is empty.
\<close>

definition truthy :: "string option \<Rightarrow> bool" where
  "truthy f = (case f of None \<Rightarrow> False | Some s \<Rightarrow> s \<noteq> [])"

record k8sResource =
  metadata_name :: string
  kind :: string

record volume =
  persistentVolumeClaim_claimName :: "string option"
  configMap_name :: "string option"
  secret_secretName :: "string option"

record valueFrom =
  configMapKeyRef_name :: "string option"
  secretKeyRef_name :: "string option"

record container =
  env :: "valueFrom option list option"

text \<open>
  An entry of \<open>container.env\<close> is kept as its \<open>valueFrom\<close> property, \<open>None\<close> for a
  variable with a literal value.
\<close>

record k8sPod =
  pod_metadata_name :: string
  metadata_labels :: "(string \<rightharpoonup> string) option"
  spec_volumes :: "volume list option"
  spec_containers :: "container list option"

record k8sService =
  service_metadata_name :: string
  spec_selector :: "(string \<times> string) list option"
  spec_ports :: "nat list option"

text \<open>
  \<open>spec_selector\<close> is the selector as \<open>Object.entries\<close> lists it; \<open>spec_ports\<close> holds the
  \<open>port\<close> number of each declared port.
\<close>

record ingressPath =
  backend_service_name :: "string option"

record ingressRule =
  host :: "string option"
  http_paths :: "ingressPath list option"

record k8sIngress =
  spec_rules :: "ingressRule list option"

section \<open>Associations of a pod\<close>

text \<open>
  \<open>resources.find((r) => r.metadata.name === n)\<close> followed by the push of the name
  found. In the loop over the volumes the push is unconditional; in the loop over the
  environment it is guarded by \<open>!result.includes(...)\<close>.
\<close>

definition pushFound :: "k8sResource list \<Rightarrow> string list \<Rightarrow> string \<Rightarrow> string list" where
  "pushFound resources result n =
     (case find (\<lambda>r. metadata_name r = n) resources of
        None \<Rightarrow> result
      | Some r \<Rightarrow> result @ [metadata_name r])"

definition pushFoundOnce :: "k8sResource list \<Rightarrow> string list \<Rightarrow> string \<Rightarrow> string list" where
  "pushFoundOnce resources result n =
     (case find (\<lambda>r. metadata_name r = n) resources of
        None \<Rightarrow> result
      | Some r \<Rightarrow> if metadata_name r \<in> set result then result else result @ [metadata_name r])"

definition volumeStep :: "k8sResource list \<Rightarrow> string list \<Rightarrow> volume \<Rightarrow> string list" where
  "volumeStep resources result v =
     (if truthy (persistentVolumeClaim_claimName v)
        then pushFound resources result (the (persistentVolumeClaim_claimName v))
      else if truthy (configMap_name v)
        then pushFound resources result (the (configMap_name v))
      else if truthy (secret_secretName v)
        then pushFound resources result (the (secret_secretName v))
      else result)"

definition envStep :: "k8sResource list \<Rightarrow> string list \<Rightarrow> valueFrom option \<Rightarrow> string list" where
  "envStep resources result e =
     (case e of
        None \<Rightarrow> result
      | Some vf \<Rightarrow>
          if truthy (configMapKeyRef_name vf)
            then pushFoundOnce resources result (the (configMapKeyRef_name vf))
          else if truthy (secretKeyRef_name vf)
            then pushFoundOnce resources result (the (secretKeyRef_name vf))
          else result)"

definition containerStep :: "k8sResource list \<Rightarrow> string list \<Rightarrow> container \<Rightarrow> string list" where
  "containerStep resources result c =
     (case env c of None \<Rightarrow> result | Some es \<Rightarrow> foldl (envStep resources) result es)"

definition findAssociatedResources :: "k8sPod \<Rightarrow> k8sResource list \<Rightarrow> string list" where
  "findAssociatedResources pod resources =
     (let result0 = [];
          result1 = (case spec_volumes pod of
                       None \<Rightarrow> result0
                     | Some vs \<Rightarrow> foldl (volumeStep resources) result0 vs);
          result2 = (case spec_containers pod of
                       None \<Rightarrow> result1
                     | Some cs \<Rightarrow> foldl (containerStep resources) result1 cs)
      in setToList result2)"

text \<open>The name of a service as it is pushed, with its ports when it has some.\<close>

definition serviceName :: "k8sService \<Rightarrow> string" where
  "serviceName service =
     (case spec_ports service of
        None \<Rightarrow> service_metadata_name service
      | Some ps \<Rightarrow>
          if length ps > 0
          then service_metadata_name service @ '':'' @ joinWith '','' (map numToString ps)
          else service_metadata_name service)"

definition serviceStep :: "(string \<rightharpoonup> string) \<Rightarrow> string list \<Rightarrow> k8sService \<Rightarrow> string list" where
  "serviceStep labels result service =
     (case spec_selector service of
        None \<Rightarrow> result
      | Some sel \<Rightarrow>
          if list_all (\<lambda>(key, value). labels key = Some value) sel
          then result @ [serviceName service]
          else result)"

definition findAssociatedServices :: "k8sPod \<Rightarrow> k8sService list \<Rightarrow> string list" where
  "findAssociatedServices pod services =
     (case metadata_labels pod of
        None \<Rightarrow> []
      | Some labels \<Rightarrow> foldl (serviceStep labels) [] services)"

definition pathStep :: "string list \<Rightarrow> ingressRule \<Rightarrow> string list \<Rightarrow> ingressPath \<Rightarrow> string list" where
  "pathStep serviceBasenames rule result p =
     (if truthy (backend_service_name p)
      then (if the (backend_service_name p) \<in> set serviceBasenames
            then (if truthy (host rule) then result @ [the (host rule)] else result)
            else result)
      else result)"

definition ruleStep :: "string list \<Rightarrow> string list \<Rightarrow> ingressRule \<Rightarrow> string list" where
  "ruleStep serviceBasenames result rule =
     (case http_paths rule of
        None \<Rightarrow> result
      | Some ps \<Rightarrow> foldl (pathStep serviceBasenames rule) result ps)"

definition ingressStep :: "string list \<Rightarrow> string list \<Rightarrow> k8sIngress \<Rightarrow> string list" where
  "ingressStep serviceBasenames result ingress =
     (case spec_rules ingress of
        None \<Rightarrow> result
      | Some rs \<Rightarrow> foldl (ruleStep serviceBasenames) result rs)"

definition findAssociatedIngresses :: "string list \<Rightarrow> k8sIngress list \<Rightarrow> string list" where
  "findAssociatedIngresses serviceNames ingresses =
     (let serviceBasenames = map (\<lambda>s. hd (splitOn (CHR '':'') s)) serviceNames
      in setToList (foldl (ingressStep serviceBasenames) [] ingresses))"

section \<open>Assembling the namespace\<close>

text \<open>
  The interfaces \<open>Pod\<close> and \<open>Namespace\<close> of \<open>src/lib/types.ts\<close>; the fields carry the
  name of their interface as a prefix. The usage of a pod is what \<open>metrics.cpu\<close> and
  \<open>metrics.memory\<close> evaluate to, which is a number or \<open>undefined\<close> (\<open>None\<close>).
\<close>

record Pod =
  pod_id :: string
  pod_name :: string
  pod_cpuUsage :: "jsnum option"
  pod_memoryUsage :: "jsnum option"
  pod_pvcs :: "string list"
  pod_configMaps :: "string list"
  pod_secrets :: "string list"
  pod_services :: "string list"
  pod_ingresses :: "string list"

record Namespace =
  ns_id :: string
  ns_name :: string
  ns_podCount :: nat
  ns_cpuUsage :: jsnum
  ns_memoryUsage :: jsnum
  ns_pods :: "Pod list"

text \<open>
  The lists that \<open>getResourcesForNamespace\<close> returned for the five kinds of object,
  in the order of the source.
\<close>

record catalogs =
  cat_pvcs :: "k8sResource list"
  cat_configMaps :: "k8sResource list"
  cat_secrets :: "k8sResource list"
  cat_services :: "k8sService list"
  cat_ingresses :: "k8sIngress list"

text \<open>
  The values that \<open>podMetricsMap[podName]\<close> can have. The object is created by the literal
  \<open>{}\<close>, so its prototype is \<open>Object.prototype\<close>, and it is filled by the assignments
  \<open>result[podName] = { cpu, memory }\<close>. A read finds the sample assigned under the name;
  failing that, it finds what the prototype chain holds under the name: a member of
  \<open>Object.prototype\<close> (for the key \<open>__proto__\<close>, that object itself), written \<open>Builtin\<close>;
  failing that, it is \<open>undefined\<close>. An assignment under the key \<open>__proto__\<close> does not create
  an entry but makes the sample the prototype of the object: a read of \<open>__proto__\<close> then
  returns that sample, and a read of \<open>cpu\<close> or \<open>memory\<close> finds its number.
\<close>

datatype jsval = Undefined | Number jsnum | Sample podMetric | Builtin

definition objectPrototypeKeys :: "string list" where
  "objectPrototypeKeys =
     [''constructor'', ''hasOwnProperty'', ''isPrototypeOf'', ''propertyIsEnumerable'',
      ''toLocaleString'', ''toString'', ''valueOf'', ''__proto__'',
      ''__defineGetter__'', ''__defineSetter__'', ''__lookupGetter__'', ''__lookupSetter__'']"

definition getProperty :: "(string \<rightharpoonup> podMetric) \<Rightarrow> string \<Rightarrow> jsval" where
  "getProperty obj key =
     (case obj key of
        Some s \<Rightarrow> Sample s
      | None \<Rightarrow>
          (case obj ''__proto__'' of
             Some p \<Rightarrow>
               if key = ''cpu'' then Number (cpu p)
               else if key = ''memory'' then Number (memory p)
               else if key \<in> set objectPrototypeKeys then Builtin
               else Undefined
           | None \<Rightarrow> if key \<in> set objectPrototypeKeys then Builtin else Undefined))"

text \<open>The test that \<open>||\<close> makes on its left operand.\<close>

fun toBoolean :: "jsval \<Rightarrow> bool" where
  "toBoolean Undefined = False"
| "toBoolean (Number NaN) = False"
| "toBoolean (Number (Num x)) = (x \<noteq> 0)"
| "toBoolean (Sample s) = True"
| "toBoolean Builtin = True"

text \<open>
  \<open>metrics.cpu\<close> and \<open>metrics.memory\<close>: a sample has the two properties; a number and
  the members of \<open>Object.prototype\<close> have neither, and the read gives \<open>undefined\<close>.
\<close>

fun getCpu :: "jsval \<Rightarrow> jsnum option" where
  "getCpu (Sample s) = Some (cpu s)"
| "getCpu v = None"

fun getMemory :: "jsval \<Rightarrow> jsnum option" where
  "getMemory (Sample s) = Some (memory s)"
| "getMemory v = None"

text \<open>
  The callback of \<open>podsData.items.map\<close>, with
  \<open>metrics = podMetricsMap[podName] || { cpu: 0, memory: 0 }\<close>.
\<close>

definition mkPod :: "(string \<rightharpoonup> podMetric) \<Rightarrow> catalogs \<Rightarrow> k8sPod \<Rightarrow> Pod" where
  "mkPod podMetricsMap cat pod =
     (let podName = pod_metadata_name pod;
          metrics = (if toBoolean (getProperty podMetricsMap podName)
                     then getProperty podMetricsMap podName
                     else Sample \<lparr>cpu = Num 0, memory = Num 0\<rparr>);
          podPvcs = findAssociatedResources pod (cat_pvcs cat);
          podConfigMaps = findAssociatedResources pod (cat_configMaps cat);
          podSecrets = findAssociatedResources pod (cat_secrets cat);
          podServices = findAssociatedServices pod (cat_services cat);
          podIngresses = findAssociatedIngresses podServices (cat_ingresses cat)
      in \<lparr>pod_id = podName, pod_name = podName,
          pod_cpuUsage = getCpu metrics, pod_memoryUsage = getMemory metrics,
          pod_pvcs = podPvcs, pod_configMaps = podConfigMaps, pod_secrets = podSecrets,
          pod_services = podServices, pod_ingresses = podIngresses\<rparr>)"

text \<open>\<open>xs.reduce((sum, x) => sum + x, 0)\<close> on numbers.\<close>

definition sumUsage :: "jsnum list \<Rightarrow> jsnum" where
  "sumUsage xs = foldl jadd (Num 0) xs"

text \<open>
  The operand \<open>pod.cpuUsage\<close> of \<open>sum + pod.cpuUsage\<close> as a number: \<open>undefined\<close> counts as
  \<open>NaN\<close>.
\<close>

fun toNumber :: "jsnum option \<Rightarrow> jsnum" where
  "toNumber None = NaN"
| "toNumber (Some x) = x"

text \<open>
  The namespace record of \<open>getNamespaceDetails\<close> and of the \<open>POST\<close> handler of the
  namespace route, from the parsed pod list, the metrics map and the five catalogs. The
  totals are \<open>pods.reduce((sum, pod) => sum + pod.cpuUsage, 0)\<close> and its counterpart for
  the memory.
\<close>

definition mkNamespace ::
  "string \<Rightarrow> (string \<rightharpoonup> podMetric) \<Rightarrow> catalogs \<Rightarrow> k8sPod list \<Rightarrow> Namespace" where
  "mkNamespace namespaceName podMetricsMap cat items =
     (let ps = map (mkPod podMetricsMap cat) items
      in \<lparr>ns_id = namespaceName, ns_name = namespaceName, ns_podCount = length ps,
          ns_cpuUsage = foldl (\<lambda>sum pod. jadd sum (toNumber (pod_cpuUsage pod))) (Num 0) ps,
          ns_memoryUsage =
            foldl (\<lambda>sum pod. jadd sum (toNumber (pod_memoryUsage pod))) (Num 0) ps,
          ns_pods = ps\<rparr>)"

text \<open>
  The two reductions taken together: the sum of a list of samples, field by field.
\<close>

definition aggregate :: "podMetric list \<Rightarrow> podMetric" where
  "aggregate qs = \<lparr>cpu = sumUsage (map cpu qs), memory = sumUsage (map memory qs)\<rparr>"

section \<open>Vocabulary of the statements\<close>

text \<open>
  A field of a line of \<open>kubectl top\<close>: a non-empty string with no white space in it.
\<close>

definition isToken :: "string \<Rightarrow> bool" where
  "isToken t = (t \<noteq> [] \<and> list_all (\<lambda>c. \<not> isWhite c) t)"

text \<open>
  The name that a volume, or an entry of the environment, refers to: the one that the
  first successful test of the conditional reads.
\<close>

definition volumeRef :: "volume \<Rightarrow> string option" where
  "volumeRef v =
     (if truthy (persistentVolumeClaim_claimName v) then persistentVolumeClaim_claimName v
      else if truthy (configMap_name v) then configMap_name v
      else if truthy (secret_secretName v) then secret_secretName v
      else None)"

definition envRef :: "valueFrom option \<Rightarrow> string option" where
  "envRef e =
     (case e of
        None \<Rightarrow> None
      | Some vf \<Rightarrow>
          if truthy (configMapKeyRef_name vf) then configMapKeyRef_name vf
          else if truthy (secretKeyRef_name vf) then secretKeyRef_name vf
          else None)"

text \<open>All the names a pod refers to: those of its volumes, then those of its containers.\<close>

definition podRefs :: "k8sPod \<Rightarrow> string list" where
  "podRefs pod =
     (case spec_volumes pod of None \<Rightarrow> [] | Some vs \<Rightarrow> List.map_filter volumeRef vs) @
     (case spec_containers pod of
        None \<Rightarrow> []
      | Some cs \<Rightarrow>
          concat (map (\<lambda>c. case env c of None \<Rightarrow> [] | Some es \<Rightarrow> List.map_filter envRef es) cs))"

text \<open>The test that \<open>findAssociatedServices\<close> makes on a service, for given labels.\<close>

definition selects :: "(string \<rightharpoonup> string) \<Rightarrow> k8sService \<Rightarrow> bool" where
  "selects labels service =
     (case spec_selector service of
        None \<Rightarrow> False
      | Some sel \<Rightarrow> list_all (\<lambda>(key, value). labels key = Some value) sel)"

section \<open>Lemmas on strings and fields\<close>

subsection \<open>Decimal text and parseInt\<close>

lemma digitChar_props:
  assumes "d < 10"
  shows "digitVal (digitChar d) = d" and "isDigit (digitChar d)"
proof -
  from assms have "d \<in> {0,1,2,3,4,5,6,7,8,9}" by auto
  then show "digitVal (digitChar d) = d" and "isDigit (digitChar d)"
    by (auto simp: digitVal_def digitChar_def isDigit_def)
qed

lemma isDigit_not_white: "isDigit c \<Longrightarrow> \<not> isWhite c"
  by (auto simp: isDigit_def isWhite_def)

lemma isDigit_not_sign: "isDigit c \<Longrightarrow> c \<noteq> CHR ''-'' \<and> c \<noteq> CHR ''+''"
  by (auto simp: isDigit_def)

lemma numToString_nonempty: "numToString n \<noteq> []"
  by (subst numToString.simps) simp

lemma numToString_digits: "list_all isDigit (numToString n)"
proof (induction n rule: numToString.induct)
  case (1 n)
  show ?case
  proof (cases "n < 10")
    case True
    then show ?thesis by (subst numToString.simps) (simp add: digitChar_props)
  next
    case False
    with 1 show ?thesis by (subst numToString.simps) (simp add: digitChar_props)
  qed
qed

lemma digitsVal_snoc: "digitsVal (z @ [c]) = 10 * digitsVal z + digitVal c"
  by (simp add: digitsVal_def)

lemma digitsVal_numToString: "digitsVal (numToString n) = n"
proof (induction n rule: numToString.induct)
  case (1 n)
  show ?case
  proof (cases "n < 10")
    case True
    then show ?thesis by (subst numToString.simps) (simp add: digitsVal_def digitChar_props)
  next
    case False
    with 1 have "digitsVal (numToString (n div 10)) = n div 10" by simp
    with False show ?thesis
      by (subst numToString.simps) (simp add: digitsVal_snoc digitChar_props)
  qed
qed

lemma takeWhile_digits_append:
  assumes "list_all isDigit z" and "rest = [] \<or> \<not> isDigit (hd rest)"
  shows "takeWhile isDigit (z @ rest) = z"
proof -
  from assms(2) have "takeWhile isDigit rest = []" by (cases rest) auto
  with assms(1) show ?thesis by (simp add: list_all_iff)
qed

lemma parseInt_numToString_append:
  assumes "rest = [] \<or> \<not> isDigit (hd rest)"
  shows "parseInt (numToString n @ rest) = Num (of_nat n)"
proof -
  obtain c cs where nc: "numToString n = c # cs"
    using numToString_nonempty by (cases "numToString n") auto
  have dig: "list_all isDigit (c # cs)" using numToString_digits[of n] nc by simp
  then have c: "isDigit c" by simp
  have dw: "dropWhile isWhite ((c # cs) @ rest) = (c # cs) @ rest"
    using isDigit_not_white[OF c] by simp
  have tw: "takeWhile isDigit ((c # cs) @ rest) = c # cs"
    using takeWhile_digits_append[OF dig assms] .
  have "digitsVal (c # cs) = n" using digitsVal_numToString[of n] nc by simp
  then show ?thesis
    unfolding parseInt_def nc dw Let_def using isDigit_not_sign[OF c] tw by simp
qed

lemma parseInt_numToString: "parseInt (numToString n) = Num (of_nat n)"
  using parseInt_numToString_append[of "[]" n] by simp

lemma numToString_token: "isToken (numToString n)"
  using numToString_nonempty[of n] numToString_digits[of n] isDigit_not_white
  by (auto simp: isToken_def list_all_iff)

subsection \<open>Suffixes\<close>

lemma endsWith_snoc1: "endsWith (xs @ [a]) [c] \<longleftrightarrow> a = c"
  by (auto simp add: endsWith_def)

lemma endsWith_snoc2: "endsWith (xs @ [a, b]) [c, d] \<longleftrightarrow> a = c \<and> b = d"
  by (auto simp add: endsWith_def)

lemma endsWith_snoc21: "endsWith (xs @ [a, b]) [c] \<longleftrightarrow> b = c"
  by (auto simp add: endsWith_def)

lemma slice0_snoc1: "slice0 (xs @ [a]) (Suc 0) = xs"
  by (simp add: slice0_def)

lemma slice0_snoc2: "slice0 (xs @ [a, b]) 2 = xs"
  by (simp add: slice0_def)

lemma digits_not_endsWith:
  assumes "list_all isDigit z" and "suf \<noteq> []" and "\<not> isDigit (last suf)"
  shows "\<not> endsWith z suf"
proof
  assume e: "endsWith z suf"
  then have d: "drop (length z - length suf) z = suf" by (simp add: endsWith_def)
  then have "set suf \<subseteq> set z" using set_drop_subset[of "length z - length suf" z] by simp
  moreover have "last suf \<in> set suf" using assms(2) by simp
  ultimately show False using assms(1,3) by (auto simp: list_all_iff)
qed

lemma floor_kib: "jfloor (jover (Num (of_nat v)) 1024) = Num (of_nat (v div 1024))"
proof -
  have "\<lfloor>(of_nat v :: rat) / of_nat 1024\<rfloor> = int (v div 1024)"
    by (rule floor_divide_of_nat_eq)
  then show ?thesis by simp
qed

subsection \<open>Fields of a line\<close>

lemma trim_id:
  assumes "s \<noteq> []" and "\<not> isWhite (hd s)" and "\<not> isWhite (last s)"
  shows "trim s = s"
proof -
  from assms(1,2) have a: "dropWhile isWhite s = s" by (cases s) auto
  from assms(1,3) have "dropWhile isWhite (rev s) = rev s"
    by (cases "rev s") (auto simp: last_rev hd_rev[symmetric] simp del: rev_is_Nil_conv)
  with a show ?thesis by (simp add: trim_def)
qed

lemma splitWs_token:
  assumes "list_all (\<lambda>c. \<not> isWhite c) t"
  shows "splitWs t = [t]"
proof -
  from assms have "takeWhile (\<lambda>c. \<not> isWhite c) t = t" "dropWhile (\<lambda>c. \<not> isWhite c) t = []"
    by (auto simp: list_all_iff)
  then show ?thesis by (subst splitWs.simps) simp
qed

lemma splitWs_space:
  assumes "list_all (\<lambda>c. \<not> isWhite c) t" and "rest \<noteq> []" and "\<not> isWhite (hd rest)"
  shows "splitWs (t @ CHR '' '' # rest) = t # splitWs rest"
proof -
  have w: "isWhite (CHR '' '')" by (simp add: isWhite_def)
  from assms(1) w have tk: "takeWhile (\<lambda>c. \<not> isWhite c) (t @ CHR '' '' # rest) = t"
    by (simp add: list_all_iff)
  from assms(1) w have dr: "dropWhile (\<lambda>c. \<not> isWhite c) (t @ CHR '' '' # rest) = CHR '' '' # rest"
    by (simp add: list_all_iff)
  from assms(2,3) w have "dropWhile isWhite (CHR '' '' # rest) = rest" by (cases rest) auto
  with tk dr show ?thesis by (subst splitWs.simps) simp
qed

lemma lineParts_three:
  assumes "isToken a" and "isToken b" and "isToken c"
  shows "lineParts (a @ CHR '' '' # b @ CHR '' '' # c) = [a, b, c]"
proof -
  let ?s = "a @ CHR '' '' # b @ CHR '' '' # c"
  from assms have ne: "a \<noteq> []" "b \<noteq> []" "c \<noteq> []" by (auto simp: isToken_def)
  from assms have nw: "list_all (\<lambda>c. \<not> isWhite c) a" "list_all (\<lambda>c. \<not> isWhite c) b"
    "list_all (\<lambda>c. \<not> isWhite c) c" by (auto simp: isToken_def)
  have ha: "\<not> isWhite (hd a)" using ne(1) nw(1) by (cases a) auto
  have hb: "\<not> isWhite (hd b)" using ne(2) nw(2) by (cases b) auto
  have hc: "\<not> isWhite (hd c)" using ne(3) nw(3) by (cases c) auto
  have lc: "\<not> isWhite (last c)" using ne(3) nw(3) last_in_set[of c] by (auto simp: list_all_iff)
  have "hd ?s = hd a" using ne(1) by simp
  moreover have "last ?s = last c" using ne(3) by simp
  ultimately have t: "trim ?s = ?s" using trim_id[of ?s] ha lc by simp
  have "splitWs ?s = a # splitWs (b @ CHR '' '' # c)"
    using splitWs_space[OF nw(1), of "b @ CHR '' '' # c"] hb ne(2) by simp
  also have "splitWs (b @ CHR '' '' # c) = b # splitWs c"
    using splitWs_space[OF nw(2), of c] hc ne(3) by simp
  also have "splitWs c = [c]" using splitWs_token[OF nw(3)] .
  finally show ?thesis using t by (simp add: lineParts_def)
qed

lemma splitOn_absent: "sep \<notin> set s \<Longrightarrow> splitOn sep s = [s]"
  by (induction s) auto

lemma token_no_newline: "isToken t \<Longrightarrow> CHR 0x0A \<notin> set t"
  by (auto simp: isToken_def list_all_iff isWhite_def)

lemma outputLines_one:
  assumes "isToken a" and "isToken b" and "isToken c"
  shows "outputLines (a @ CHR '' '' # b @ CHR '' '' # c) = [a @ CHR '' '' # b @ CHR '' '' # c]"
proof -
  let ?s = "a @ CHR '' '' # b @ CHR '' '' # c"
  from assms have ne: "a \<noteq> []" "c \<noteq> []" by (auto simp: isToken_def)
  have ha: "\<not> isWhite (hd a)" using assms(1) by (cases a) (auto simp: isToken_def)
  have lc: "\<not> isWhite (last c)" using assms(3) last_in_set[of c] by (auto simp: isToken_def list_all_iff)
  have "hd ?s = hd a" using ne(1) by simp
  moreover have "last ?s = last c" using ne(2) by simp
  ultimately have t: "trim ?s = ?s" using trim_id[of ?s] ha lc by simp
  have "CHR 0x0A \<notin> set ?s" using assms token_no_newline by auto
  then show ?thesis using t by (simp add: outputLines_def splitOn_absent)
qed

lemma isToken_append: "isToken a \<Longrightarrow> list_all (\<lambda>c. \<not> isWhite c) b \<Longrightarrow> isToken (a @ b)"
  by (simp add: isToken_def)

lemma parsePodMetrics_sa_line:
  assumes "isToken a" and "isToken b" and "isToken c"
  shows "parsePodMetrics_sa (a @ CHR '' '' # b @ CHR '' '' # c) =
           [a \<mapsto> \<lparr>cpu = podCpu b, memory = podMemory_sa c\<rparr>]"
  using outputLines_one[OF assms] lineParts_three[OF assms]
  by (simp add: parsePodMetrics_sa_def podLine_sa_def)

lemma parsePodMetrics_nd_line:
  assumes "isToken a" and "isToken b" and "isToken c"
  shows "parsePodMetrics_nd (a @ CHR '' '' # b @ CHR '' '' # c) =
           [a \<mapsto> \<lparr>cpu = podCpu b, memory = podMemory_nd c\<rparr>]"
  using outputLines_one[OF assms] lineParts_three[OF assms]
  by (simp add: parsePodMetrics_nd_def podLine_nd_def)

lemma parseNamespaceMetrics_line:
  assumes "isToken a" and "isToken b" and "isToken c"
  shows "parseNamespaceMetrics (a @ CHR '' '' # b @ CHR '' '' # c) =
           \<lparr>cpuUsage = addCpu (Num 0) b, memoryUsage = addMemory_sa (Num 0) c\<rparr>"
  using outputLines_one[OF assms] lineParts_three[OF assms]
  by (simp add: parseNamespaceMetrics_def namespaceLine_def)

lemma parseNodeMetrics_sa_line:
  assumes "isToken a" and "isToken b" and "isToken c"
  shows "parseNodeMetrics_sa (a @ CHR '' '' # b @ CHR '' '' # c) =
           \<lparr>cpuUsage = addCpu (Num 0) b, memoryUsage = addMemory_sa (Num 0) c,
            cpuTotal = Num 4000, memoryTotal = Num 16384\<rparr>"
  using outputLines_one[OF assms] lineParts_three[OF assms]
  by (simp add: parseNodeMetrics_sa_def nodeLine_sa_def)

lemma parseNodeMetrics_cl_line:
  assumes "isToken a" and "isToken b" and "isToken c"
  shows "parseNodeMetrics_cl (a @ CHR '' '' # b @ CHR '' '' # c) =
           \<lparr>cpuUsage = addCpu (Num 0) b, memoryUsage = addMemory_cl (Num 0) c,
            cpuTotal = Num 4000, memoryTotal = Num 16384\<rparr>"
  using outputLines_one[OF assms] lineParts_three[OF assms]
  by (simp add: parseNodeMetrics_cl_def nodeLine_cl_def)

lemma kib_token: "isToken (numToString v @ ''Ki'')"
  by (rule isToken_append[OF numToString_token]) (simp add: isWhite_def)

lemma podMemory_sa_kib: "podMemory_sa (numToString v @ ''Ki'') = Num (of_int \<lfloor>(of_nat v :: rat) / 1024\<rfloor>)"
  using floor_kib[of v]
  by (simp add: podMemory_sa_def endsWith_snoc2 slice0_snoc2 parseInt_numToString)

lemma podMemory_nd_kib: "podMemory_nd (numToString v @ ''Ki'') = Num (of_int \<lfloor>(of_nat v :: rat) / 1024\<rfloor>)"
  using floor_kib[of v]
  by (simp add: podMemory_nd_def endsWith_snoc2 slice0_snoc2 parseInt_numToString)

lemma addMemory_sa_kib:
  "addMemory_sa acc (numToString v @ ''Ki'') = jadd acc (Num (of_int \<lfloor>(of_nat v :: rat) / 1024\<rfloor>))"
  using floor_kib[of v]
  by (simp add: addMemory_sa_def endsWith_snoc2 slice0_snoc2 parseInt_numToString)

lemma addMemory_cl_kib:
  "addMemory_cl acc (numToString v @ ''Ki'') = jadd acc (Num (of_int \<lfloor>(of_nat v :: rat) / 1024\<rfloor>))"
  using floor_kib[of v]
  by (simp add: addMemory_cl_def endsWith_snoc2 slice0_snoc2 parseInt_numToString)

lemmas field_eval = podCpu_def podMemory_sa_def podMemory_nd_def addCpu_def addMemory_sa_def
  addMemory_cl_def endsWith_def slice0_def parseInt_def isWhite_def isDigit_def digitsVal_def
  digitVal_def

lemmas text_eval = outputLines_def lineParts_def trim_def splitWs.simps

lemma podCpu_millicores: "podCpu (numToString n @ ''m'') = Num (of_nat n)"
  by (simp add: podCpu_def endsWith_snoc1 slice0_snoc1 parseInt_numToString)

lemma podCpu_cores: "podCpu (numToString n) = Num (of_nat n * 1000)"
proof -
  have "\<not> endsWith (numToString n) ''m''"
    by (rule digits_not_endsWith[OF numToString_digits]) (simp_all add: isDigit_def)
  then show ?thesis by (simp add: podCpu_def parseInt_numToString)
qed

lemma podMemory_sa_mib: "podMemory_sa (numToString n @ ''Mi'') = Num (of_nat n)"
  by (simp add: podMemory_sa_def endsWith_snoc2 slice0_snoc2 parseInt_numToString)

lemma podMemory_nd_mib: "podMemory_nd (numToString n @ ''Mi'') = Num (of_nat n)"
  by (simp add: podMemory_nd_def endsWith_snoc2 slice0_snoc2 parseInt_numToString)

lemma podMemory_nd_bytes:
  "podMemory_nd (numToString n) = Num (of_nat n / 1024 / 1024)"
  "podMemory_nd (numToString n @ ''m'') = Num (of_nat n / 1024 / 1024)"
proof -
  have d: "list_all isDigit (numToString n)" by (rule numToString_digits)
  have "\<not> endsWith (numToString n) ''Mi''" "\<not> endsWith (numToString n) ''Gi''"
    "\<not> endsWith (numToString n) ''Ki''" "\<not> endsWith (numToString n) ''m''"
    by (rule digits_not_endsWith[OF d]; simp add: isDigit_def)+
  then show "podMemory_nd (numToString n) = Num (of_nat n / 1024 / 1024)"
    by (simp add: podMemory_nd_def parseInt_numToString)
  have "\<not> endsWith (numToString n @ ''m'') ''Mi''" "\<not> endsWith (numToString n @ ''m'') ''Gi''"
    "\<not> endsWith (numToString n @ ''m'') ''Ki''"
    by (simp_all add: endsWith_def)
  then show "podMemory_nd (numToString n @ ''m'') = Num (of_nat n / 1024 / 1024)"
    by (simp add: podMemory_nd_def endsWith_snoc1 slice0_snoc1 parseInt_numToString)
qed

lemma millis_token: "isToken (numToString n @ ''m'')"
  by (rule isToken_append[OF numToString_token]) (simp add: isWhite_def)

lemma mib_token: "isToken (numToString n @ ''Mi'')"
  by (rule isToken_append[OF numToString_token]) (simp add: isWhite_def)

lemma numToString_1536: "numToString 1536 = ''1536''"
  by (simp add: numToString.simps digitChar_def)

lemma numToString_examples:
  "numToString 500 = ''500''" "numToString 3 = ''3''" "numToString 256 = ''256''"
  by (simp_all add: numToString.simps digitChar_def)

section \<open>Decoding of the metric fields\<close>

text \<open>
  C1 (as amended). A memory field with the suffix \<open>Ki\<close> is divided by 1024 and floored
  by every parser: for every non-negative integer \<open>v\<close>, a line whose memory field is
  \<open>vKi\<close> gives the pod the memory \<open>floor(v/1024)\<close> in both copies of
  \<open>parsePodMetrics\<close>, and contributes \<open>floor(v/1024)\<close> to the totals of
  \<open>parseNamespaceMetrics\<close> and of both copies of \<open>parseNodeMetrics\<close>.
\<close>

theorem kibibytes_floored_by_every_parser:
  assumes "isToken podName" and "isToken cpuStr"
  shows "parsePodMetrics_sa (podName @ '' '' @ cpuStr @ '' '' @ numToString v @ ''Ki'') podName =
           Some \<lparr>cpu = podCpu cpuStr, memory = Num (of_int \<lfloor>(of_nat v :: rat) / 1024\<rfloor>)\<rparr>
       \<and> parsePodMetrics_nd (podName @ '' '' @ cpuStr @ '' '' @ numToString v @ ''Ki'') podName =
           Some \<lparr>cpu = podCpu cpuStr, memory = Num (of_int \<lfloor>(of_nat v :: rat) / 1024\<rfloor>)\<rparr>
       \<and> memoryUsage (parseNamespaceMetrics (podName @ '' '' @ cpuStr @ '' '' @ numToString v @ ''Ki''))
           = Num (of_int \<lfloor>(of_nat v :: rat) / 1024\<rfloor>)
       \<and> memoryUsage (parseNodeMetrics_sa (podName @ '' '' @ cpuStr @ '' '' @ numToString v @ ''Ki''))
           = Num (of_int \<lfloor>(of_nat v :: rat) / 1024\<rfloor>)
       \<and> memoryUsage (parseNodeMetrics_cl (podName @ '' '' @ cpuStr @ '' '' @ numToString v @ ''Ki''))
           = Num (of_int \<lfloor>(of_nat v :: rat) / 1024\<rfloor>)
       \<and> memoryUsage (namespaceLine acc (podName @ '' '' @ cpuStr @ '' '' @ numToString v @ ''Ki''))
           = jadd (memoryUsage acc) (Num (of_int \<lfloor>(of_nat v :: rat) / 1024\<rfloor>))
       \<and> memoryUsage (nodeLine_sa nacc (podName @ '' '' @ cpuStr @ '' '' @ numToString v @ ''Ki''))
           = jadd (memoryUsage nacc) (Num (of_int \<lfloor>(of_nat v :: rat) / 1024\<rfloor>))
       \<and> memoryUsage (nodeLine_cl nacc (podName @ '' '' @ cpuStr @ '' '' @ numToString v @ ''Ki''))
           = jadd (memoryUsage nacc) (Num (of_int \<lfloor>(of_nat v :: rat) / 1024\<rfloor>))"
proof -
  note k = kib_token[of v]
  note parts = lineParts_three[OF assms k]
  have "memoryUsage (namespaceLine acc (podName @ CHR '' '' # cpuStr @ CHR '' '' # numToString v @ ''Ki''))
           = jadd (memoryUsage acc) (Num (of_int \<lfloor>(of_nat v :: rat) / 1024\<rfloor>))"
    using parts addMemory_sa_kib[of "memoryUsage acc" v] by (simp add: namespaceLine_def)
  moreover have "memoryUsage (nodeLine_sa nacc (podName @ CHR '' '' # cpuStr @ CHR '' '' # numToString v @ ''Ki''))
           = jadd (memoryUsage nacc) (Num (of_int \<lfloor>(of_nat v :: rat) / 1024\<rfloor>))"
    using parts addMemory_sa_kib[of "memoryUsage nacc" v] by (simp add: nodeLine_sa_def)
  moreover have "memoryUsage (nodeLine_cl nacc (podName @ CHR '' '' # cpuStr @ CHR '' '' # numToString v @ ''Ki''))
           = jadd (memoryUsage nacc) (Num (of_int \<lfloor>(of_nat v :: rat) / 1024\<rfloor>))"
    using parts addMemory_cl_kib[of "memoryUsage nacc" v] by (simp add: nodeLine_cl_def)
  moreover
  have "parsePodMetrics_sa (podName @ CHR '' '' # cpuStr @ CHR '' '' # numToString v @ ''Ki'') podName =
           Some \<lparr>cpu = podCpu cpuStr, memory = Num (of_int \<lfloor>(of_nat v :: rat) / 1024\<rfloor>)\<rparr>"
    using parsePodMetrics_sa_line[OF assms k] podMemory_sa_kib[of v] by simp
  moreover have "parsePodMetrics_nd (podName @ CHR '' '' # cpuStr @ CHR '' '' # numToString v @ ''Ki'') podName =
           Some \<lparr>cpu = podCpu cpuStr, memory = Num (of_int \<lfloor>(of_nat v :: rat) / 1024\<rfloor>)\<rparr>"
    using parsePodMetrics_nd_line[OF assms k] podMemory_nd_kib[of v] by simp
  moreover have "memoryUsage (parseNamespaceMetrics (podName @ CHR '' '' # cpuStr @ CHR '' '' # numToString v @ ''Ki''))
           = Num (of_int \<lfloor>(of_nat v :: rat) / 1024\<rfloor>)"
    using parseNamespaceMetrics_line[OF assms k] addMemory_sa_kib[of "Num 0" v] by simp
  moreover have "memoryUsage (parseNodeMetrics_sa (podName @ CHR '' '' # cpuStr @ CHR '' '' # numToString v @ ''Ki''))
           = Num (of_int \<lfloor>(of_nat v :: rat) / 1024\<rfloor>)"
    using parseNodeMetrics_sa_line[OF assms k] addMemory_sa_kib[of "Num 0" v] by simp
  moreover have "memoryUsage (parseNodeMetrics_cl (podName @ CHR '' '' # cpuStr @ CHR '' '' # numToString v @ ''Ki''))
           = Num (of_int \<lfloor>(of_nat v :: rat) / 1024\<rfloor>)"
    using parseNodeMetrics_cl_line[OF assms k] addMemory_cl_kib[of "Num 0" v] by simp
  ultimately show ?thesis by simp
qed

text \<open>The statement above at the pod \<open>web-1\<close> with 1536 kibibytes.\<close>

theorem kibibytes_floored_by_every_parser_witness:
  "isToken ''web-1'' \<and> isToken ''250m''
   \<and> parsePodMetrics_sa ''web-1 250m 1536Ki'' ''web-1'' = Some \<lparr>cpu = Num 250, memory = Num 1\<rparr>
   \<and> parsePodMetrics_nd ''web-1 250m 1536Ki'' ''web-1'' = Some \<lparr>cpu = Num 250, memory = Num 1\<rparr>
   \<and> memoryUsage (parseNamespaceMetrics ''web-1 250m 1536Ki'') = Num 1
   \<and> memoryUsage (parseNodeMetrics_sa ''web-1 250m 1536Ki'') = Num 1
   \<and> memoryUsage (parseNodeMetrics_cl ''web-1 250m 1536Ki'') = Num 1"
proof -
  have a: "isToken ''web-1''" and b: "isToken ''250m''"
    by (simp_all add: isToken_def isWhite_def)
  show ?thesis
    using a b kibibytes_floored_by_every_parser[OF a b, where v = 1536]
    by (simp add: numToString_1536 floor_eq_iff field_eval)
qed

text \<open>
  C1 as stated asks for the unfloored 1536/1024 = 1.5 mebibytes in the pod's own record;
  both copies of \<open>parsePodMetrics\<close> store 1.
\<close>

theorem pod_kibibytes_unfloored_counterexample:
  "parsePodMetrics_sa ''web-1 250m 1536Ki'' ''web-1'' = Some \<lparr>cpu = Num 250, memory = Num 1\<rparr>
   \<and> parsePodMetrics_nd ''web-1 250m 1536Ki'' ''web-1'' = Some \<lparr>cpu = Num 250, memory = Num 1\<rparr>
   \<and> Num 1 \<noteq> Num (1536 / 1024)"
proof -
  have a: "isToken ''web-1''" and b: "isToken ''250m''" and c: "isToken ''1536Ki''"
    by (simp_all add: isToken_def isWhite_def)
  show ?thesis
    using parsePodMetrics_sa_line[OF a b c] parsePodMetrics_nd_line[OF a b c]
    by (simp add: field_eval floor_eq_iff)
qed

text \<open>
  C6. For every non-negative integer \<open>n\<close> the CPU field \<open>nm\<close> decodes to \<open>n\<close>
  millicores and the memory field \<open>nMi\<close> to \<open>n\<close> mebibytes; a CPU field that is a plain
  integer \<open>k\<close> decodes to \<open>1000 k\<close> millicores; the fields \<open>2\<close> and \<open>1Gi\<close> decode to
  2000 millicores and 1024 mebibytes. This holds for both copies of \<open>parsePodMetrics\<close>,
  on a whole line of output.
\<close>

theorem cpu_and_mebibytes_decoded:
  assumes "isToken podName"
  shows "parsePodMetrics_sa (podName @ '' '' @ numToString n @ ''m'' @ '' '' @ numToString n @ ''Mi'') podName
           = Some \<lparr>cpu = Num (of_nat n), memory = Num (of_nat n)\<rparr>
       \<and> parsePodMetrics_nd (podName @ '' '' @ numToString n @ ''m'' @ '' '' @ numToString n @ ''Mi'') podName
           = Some \<lparr>cpu = Num (of_nat n), memory = Num (of_nat n)\<rparr>
       \<and> parsePodMetrics_sa (podName @ '' '' @ numToString k @ '' '' @ numToString n @ ''Mi'') podName
           = Some \<lparr>cpu = Num (of_nat k * 1000), memory = Num (of_nat n)\<rparr>
       \<and> parsePodMetrics_nd (podName @ '' '' @ numToString k @ '' '' @ numToString n @ ''Mi'') podName
           = Some \<lparr>cpu = Num (of_nat k * 1000), memory = Num (of_nat n)\<rparr>
       \<and> parsePodMetrics_sa (podName @ '' 2 1Gi'') podName = Some \<lparr>cpu = Num 2000, memory = Num 1024\<rparr>
       \<and> parsePodMetrics_nd (podName @ '' 2 1Gi'') podName = Some \<lparr>cpu = Num 2000, memory = Num 1024\<rparr>"
proof -
  note m = millis_token[of n] and mi = mib_token[of n] and c = numToString_token[of k]
  have two: "isToken ''2''" and gi: "isToken ''1Gi''" by (simp_all add: isToken_def isWhite_def)
  have "parsePodMetrics_sa (podName @ CHR '' '' # (numToString n @ ''m'') @ CHR '' '' # numToString n @ ''Mi'') podName
           = Some \<lparr>cpu = Num (of_nat n), memory = Num (of_nat n)\<rparr>"
    using parsePodMetrics_sa_line[OF assms m mi] by (simp add: podCpu_millicores podMemory_sa_mib)
  moreover have "parsePodMetrics_nd (podName @ CHR '' '' # (numToString n @ ''m'') @ CHR '' '' # numToString n @ ''Mi'') podName
           = Some \<lparr>cpu = Num (of_nat n), memory = Num (of_nat n)\<rparr>"
    using parsePodMetrics_nd_line[OF assms m mi] by (simp add: podCpu_millicores podMemory_nd_mib)
  moreover have "parsePodMetrics_sa (podName @ CHR '' '' # numToString k @ CHR '' '' # numToString n @ ''Mi'') podName
           = Some \<lparr>cpu = Num (of_nat k * 1000), memory = Num (of_nat n)\<rparr>"
    using parsePodMetrics_sa_line[OF assms c mi] by (simp add: podCpu_cores podMemory_sa_mib)
  moreover have "parsePodMetrics_nd (podName @ CHR '' '' # numToString k @ CHR '' '' # numToString n @ ''Mi'') podName
           = Some \<lparr>cpu = Num (of_nat k * 1000), memory = Num (of_nat n)\<rparr>"
    using parsePodMetrics_nd_line[OF assms c mi] by (simp add: podCpu_cores podMemory_nd_mib)
  moreover have "parsePodMetrics_sa (podName @ CHR '' '' # ''2'' @ CHR '' '' # ''1Gi'') podName
           = Some \<lparr>cpu = Num 2000, memory = Num 1024\<rparr>"
    using parsePodMetrics_sa_line[OF assms two gi] by (simp add: field_eval)
  moreover have "parsePodMetrics_nd (podName @ CHR '' '' # ''2'' @ CHR '' '' # ''1Gi'') podName
           = Some \<lparr>cpu = Num 2000, memory = Num 1024\<rparr>"
    using parsePodMetrics_nd_line[OF assms two gi] by (simp add: field_eval)
  ultimately show ?thesis by simp
qed

text \<open>The statement above at the pod \<open>api-0\<close> with \<open>n = 500\<close> and \<open>k = 3\<close>.\<close>

theorem cpu_and_mebibytes_decoded_witness:
  "isToken ''api-0''
   \<and> parsePodMetrics_sa ''api-0 500m 500Mi'' ''api-0'' = Some \<lparr>cpu = Num 500, memory = Num 500\<rparr>
   \<and> parsePodMetrics_nd ''api-0 500m 500Mi'' ''api-0'' = Some \<lparr>cpu = Num 500, memory = Num 500\<rparr>
   \<and> parsePodMetrics_sa ''api-0 3 500Mi'' ''api-0'' = Some \<lparr>cpu = Num 3000, memory = Num 500\<rparr>
   \<and> parsePodMetrics_nd ''api-0 3 500Mi'' ''api-0'' = Some \<lparr>cpu = Num 3000, memory = Num 500\<rparr>
   \<and> parsePodMetrics_sa ''api-0 2 1Gi'' ''api-0'' = Some \<lparr>cpu = Num 2000, memory = Num 1024\<rparr>
   \<and> parsePodMetrics_nd ''api-0 2 1Gi'' ''api-0'' = Some \<lparr>cpu = Num 2000, memory = Num 1024\<rparr>"
proof -
  have a: "isToken ''api-0''" by (simp add: isToken_def isWhite_def)
  show ?thesis
    using a cpu_and_mebibytes_decoded[OF a, of 500 3]
    by (simp add: numToString_examples)
qed

text \<open>
  C3. A memory field without the suffixes \<open>Mi\<close>, \<open>Gi\<close> and \<open>Ki\<close> is a number of bytes,
  to be divided by 1024 * 1024, also when it ends in \<open>m\<close>. The parser of the namespace
  route does so; \<open>parsePodMetrics\<close> of \<open>src/lib/server-actions.ts\<close> has no branch for
  such a field and leaves the memory at 0.
\<close>

theorem bytes_dropped_by_server_actions:
  "parsePodMetrics_sa ''web-1 250m 1048576'' ''web-1'' = Some \<lparr>cpu = Num 250, memory = Num 0\<rparr>
   \<and> parsePodMetrics_nd ''web-1 250m 1048576'' ''web-1'' = Some \<lparr>cpu = Num 250, memory = Num 1\<rparr>
   \<and> parsePodMetrics_sa ''web-1 250m 2097152m'' ''web-1'' = Some \<lparr>cpu = Num 250, memory = Num 0\<rparr>
   \<and> parsePodMetrics_nd ''web-1 250m 2097152m'' ''web-1'' = Some \<lparr>cpu = Num 250, memory = Num 2\<rparr>"
proof -
  have a: "isToken ''web-1''" and b: "isToken ''250m''" and c: "isToken ''1048576''"
    and d: "isToken ''2097152m''"
    by (simp_all add: isToken_def isWhite_def)
  show ?thesis
    using parsePodMetrics_sa_line[OF a b c] parsePodMetrics_nd_line[OF a b c]
      parsePodMetrics_sa_line[OF a b d] parsePodMetrics_nd_line[OF a b d]
    by (simp add: field_eval)
qed

text \<open>
  C5. A field with no number in it should decode to 0. \<open>Number.parseInt\<close> returns
  \<open>NaN\<close> for it and no parser replaces that value, so the field of the pod is \<open>NaN\<close>,
  and so is the total of the namespace it is added to.
\<close>

theorem unparseable_field_gives_NaN:
  "parsePodMetrics_sa ''web-1 abc 12Mi'' ''web-1'' = Some \<lparr>cpu = NaN, memory = Num 12\<rparr>
   \<and> parsePodMetrics_nd ''web-1 250m xyz'' ''web-1'' = Some \<lparr>cpu = Num 250, memory = NaN\<rparr>
   \<and> parseNamespaceMetrics (''web-1 abc 12Mi'' @ [CHR 0x0A] @ ''web-2 100m 10Mi'')
        = \<lparr>cpuUsage = NaN, memoryUsage = Num 22\<rparr>"
proof -
  have a: "isToken ''web-1''" and b: "isToken ''abc''" and c: "isToken ''12Mi''"
    and d: "isToken ''250m''" and e: "isToken ''xyz''"
    by (simp_all add: isToken_def isWhite_def)
  have "parseNamespaceMetrics (''web-1 abc 12Mi'' @ [CHR 0x0A] @ ''web-2 100m 10Mi'')
        = \<lparr>cpuUsage = NaN, memoryUsage = Num 22\<rparr>"
    by (simp add: parseNamespaceMetrics_def namespaceLine_def text_eval field_eval)
  then show ?thesis
    using parsePodMetrics_sa_line[OF a b c] parsePodMetrics_nd_line[OF a d e]
    by (simp add: field_eval)
qed

section \<open>Lemmas on the association functions\<close>

subsection \<open>Lists without repetition\<close>

lemma seen_foldl_set:
  "set (foldl (\<lambda>seen x. if x \<in> set seen then seen else seen @ [x]) acc xs) = set acc \<union> set xs"
  by (induction xs arbitrary: acc) auto

lemma seen_foldl_distinct:
  "distinct acc \<Longrightarrow> distinct (foldl (\<lambda>seen x. if x \<in> set seen then seen else seen @ [x]) acc xs)"
  by (induction xs arbitrary: acc) auto

lemma set_setToList: "set (setToList xs) = set xs"
  by (simp add: setToList_def seen_foldl_set)

lemma distinct_setToList: "distinct (setToList xs)"
  by (simp add: setToList_def seen_foldl_distinct)

lemma setToList_snoc:
  "setToList (xs @ [x]) = (if x \<in> set xs then setToList xs else setToList xs @ [x])"
  by (simp add: setToList_def seen_foldl_set)

lemma setToList_snoc_cong:
  assumes "setToList a = setToList b"
  shows "setToList (a @ [x]) = setToList (b @ [x])"
proof -
  have "set (setToList a) = set (setToList b)" using assms by simp
  then have "set a = set b" by (simp only: set_setToList)
  with assms show ?thesis by (simp add: setToList_snoc)
qed


lemma setToList_append_cong:
  assumes "setToList a = setToList b"
  shows "setToList (a @ xs) = setToList (b @ xs)"
proof (induction xs rule: rev_induct)
  case Nil
  then show ?case using assms by simp
next
  case (snoc x xs)
  then show ?case using setToList_snoc_cong[of "a @ xs" "b @ xs" x] by simp
qed

subsection \<open>Looking a name up in a catalogue\<close>

lemma find_by_name:
  "(find (\<lambda>r. metadata_name r = n) resources = None \<and> n \<notin> metadata_name ` set resources)
   \<or> (\<exists>r. find (\<lambda>r. metadata_name r = n) resources = Some r \<and> metadata_name r = n
          \<and> n \<in> metadata_name ` set resources)"
  by (induction resources) auto

lemma pushFound_eq:
  "pushFound resources result n =
     (if n \<in> metadata_name ` set resources then result @ [n] else result)"
  using find_by_name[of n resources] by (auto simp: pushFound_def)

lemma pushFoundOnce_eq:
  "pushFoundOnce resources result n =
     (if n \<in> metadata_name ` set resources \<and> n \<notin> set result then result @ [n] else result)"
  using find_by_name[of n resources] by (auto simp: pushFoundOnce_def)

lemma truthy_iff: "truthy f \<longleftrightarrow> (\<exists>s. f = Some s \<and> s \<noteq> [])"
  by (cases f) (auto simp: truthy_def)

lemma volumeStep_eq:
  "volumeStep resources result v =
     (case volumeRef v of None \<Rightarrow> result | Some n \<Rightarrow> pushFound resources result n)"
  by (auto simp: volumeStep_def volumeRef_def truthy_iff)

lemma envStep_eq:
  "envStep resources result e =
     (case envRef e of None \<Rightarrow> result | Some n \<Rightarrow> pushFoundOnce resources result n)"
  by (cases e) (auto simp: envStep_def envRef_def truthy_iff)

lemma volumes_foldl:
  "foldl (volumeStep resources) acc vs =
     acc @ filter (\<lambda>n. n \<in> metadata_name ` set resources) (List.map_filter volumeRef vs)"
proof (induction vs arbitrary: acc)
  case Nil
  show ?case by simp
next
  case (Cons v vs)
  have step: "volumeStep resources acc v =
      acc @ filter (\<lambda>n. n \<in> metadata_name ` set resources) (List.map_filter volumeRef [v])"
    by (cases "volumeRef v") (simp_all add: volumeStep_eq pushFound_eq)
  have "List.map_filter volumeRef (v # vs) = List.map_filter volumeRef [v] @ List.map_filter volumeRef vs"
    by (cases "volumeRef v") simp_all
  then show ?case by (simp add: Cons step)
qed

lemma env_foldl:
  assumes "setToList acc = setToList acc'"
  shows "setToList (foldl (envStep resources) acc es) =
     setToList (acc' @ filter (\<lambda>n. n \<in> metadata_name ` set resources) (List.map_filter envRef es))"
  using assms
proof (induction es arbitrary: acc acc')
  case Nil
  then show ?case by simp
next
  case (Cons e es)
  let ?P = "\<lambda>n. n \<in> metadata_name ` set resources"
  have split: "List.map_filter envRef (e # es) = List.map_filter envRef [e] @ List.map_filter envRef es"
    by (cases "envRef e") simp_all
  have step: "setToList (envStep resources acc e) =
      setToList (acc' @ filter ?P (List.map_filter envRef [e]))"
  proof (cases "envRef e")
    case None
    then show ?thesis using Cons.prems by (simp add: envStep_eq)
  next
    case (Some n)
    show ?thesis
    proof (cases "?P n")
      case False
      then show ?thesis using Cons.prems Some
        by (simp add: envStep_eq pushFoundOnce_eq)
    next
      case True
      have "setToList (pushFoundOnce resources acc n) = setToList (acc @ [n])"
        using True by (simp add: pushFoundOnce_eq setToList_snoc)
      also have "\<dots> = setToList (acc' @ [n])"
        using Cons.prems by (rule setToList_snoc_cong)
      finally show ?thesis using True Some by (simp add: envStep_eq)
    qed
  qed
  show ?case using Cons.IH[OF step] unfolding split by simp
qed

lemma containers_foldl:
  assumes "setToList acc = setToList acc'"
  shows "setToList (foldl (containerStep resources) acc cs) =
     setToList (acc' @ filter (\<lambda>n. n \<in> metadata_name ` set resources)
        (concat (map (\<lambda>c. case env c of None \<Rightarrow> [] | Some es \<Rightarrow> List.map_filter envRef es) cs)))"
  using assms
proof (induction cs arbitrary: acc acc')
  case Nil
  then show ?case by simp
next
  case (Cons c cs)
  let ?P = "\<lambda>n. n \<in> metadata_name ` set resources"
  have step: "setToList (containerStep resources acc c) =
      setToList (acc' @ filter ?P (case env c of None \<Rightarrow> [] | Some es \<Rightarrow> List.map_filter envRef es))"
  proof (cases "env c")
    case None
    then show ?thesis using Cons.prems by (simp add: containerStep_def)
  next
    case (Some es)
    then show ?thesis using env_foldl[OF Cons.prems, of resources es] by (simp add: containerStep_def)
  qed
  show ?case using Cons.IH[OF step] by simp
qed

lemma findAssociatedResources_eq:
  "findAssociatedResources pod resources =
     setToList (filter (\<lambda>n. n \<in> metadata_name ` set resources) (podRefs pod))"
proof -
  let ?P = "\<lambda>n. n \<in> metadata_name ` set resources"
  let ?vs = "case spec_volumes pod of None \<Rightarrow> [] | Some vs \<Rightarrow> List.map_filter volumeRef vs"
  let ?es = "case spec_containers pod of None \<Rightarrow> []
     | Some cs \<Rightarrow> concat (map (\<lambda>c. case env c of None \<Rightarrow> [] | Some es \<Rightarrow> List.map_filter envRef es) cs)"
  have r1: "(case spec_volumes pod of None \<Rightarrow> [] | Some vs \<Rightarrow> foldl (volumeStep resources) [] vs)
      = filter ?P ?vs"
    by (cases "spec_volumes pod") (simp_all add: volumes_foldl)
  have r2: "setToList (case spec_containers pod of None \<Rightarrow> filter ?P ?vs
          | Some cs \<Rightarrow> foldl (containerStep resources) (filter ?P ?vs) cs)
      = setToList (filter ?P ?vs @ filter ?P ?es)"
  proof (cases "spec_containers pod")
    case None
    then show ?thesis by simp
  next
    case (Some cs)
    then show ?thesis
      using containers_foldl[of "filter ?P ?vs" "filter ?P ?vs" resources cs] by simp
  qed
  have "findAssociatedResources pod resources =
     setToList (case spec_containers pod of None \<Rightarrow> filter ?P ?vs
          | Some cs \<Rightarrow> foldl (containerStep resources) (filter ?P ?vs) cs)"
    by (simp only: findAssociatedResources_def Let_def r1)
  also have "\<dots> = setToList (filter ?P ?vs @ filter ?P ?es)" by (rule r2)
  finally show ?thesis by (simp add: podRefs_def)
qed

lemmas assoc_eval = findAssociatedResources_def volumeStep_def envStep_def containerStep_def
  pushFound_def pushFoundOnce_def truthy_def setToList_def

lemma map_filter_append: "List.map_filter f (xs @ ys) = List.map_filter f xs @ List.map_filter f ys"
  by (simp add: List.map_filter_def)

lemma svcs_foldl:
  "foldl (serviceStep labels) acc svcs =
     acc @ map serviceName (filter (selects labels) svcs)"
proof (induction svcs arbitrary: acc)
  case Nil
  show ?case by simp
next
  case (Cons s ss)
  have step: "serviceStep labels acc s = acc @ map serviceName (filter (selects labels) [s])"
    by (cases "spec_selector s") (simp_all add: serviceStep_def selects_def)
  show ?case by (simp add: Cons step)
qed

lemma findAssociatedServices_eq:
  "findAssociatedServices pod svcs =
     (case metadata_labels pod of
        None \<Rightarrow> []
      | Some labels \<Rightarrow> map serviceName (filter (selects labels) svcs))"
  by (cases "metadata_labels pod") (simp_all add: findAssociatedServices_def svcs_foldl)

lemma filter_dangling:
  assumes "f v = Some n" and "\<not> P n"
  shows "filter P (List.map_filter f (xs @ v # ys)) = filter P (List.map_filter f (xs @ ys))"
  using assms by (simp add: map_filter_append)

section \<open>Storage and configuration objects of a pod\<close>

text \<open>
  C4 (as amended). For the pod with one volume on the storage claim \<open>data-1\<close> and one
  environment entry on the config map \<open>app-config\<close>, the list of storage claims
  \<open>data-1\<close>, \<open>data-2\<close> resolves to exactly \<open>data-1\<close> and the list of config maps
  \<open>app-config\<close> to exactly \<open>app-config\<close>. \<open>findAssociatedResources\<close> takes no kind: it
  returns the names the pod refers to, through any volume or environment entry, that are
  names in the list it is given, in the order of first reference and without repetition,
  and the kinds of the objects in the list have no influence on the result.
\<close>

theorem resources_selected_by_name:
  "findAssociatedResources
     \<lparr>pod_metadata_name = ''web-1'', metadata_labels = None,
      spec_volumes = Some [\<lparr>persistentVolumeClaim_claimName = Some ''data-1'',
                            configMap_name = None, secret_secretName = None\<rparr>],
      spec_containers = Some [\<lparr>env = Some [Some \<lparr>configMapKeyRef_name = Some ''app-config'',
                                                    secretKeyRef_name = None\<rparr>]\<rparr>]\<rparr>
     [\<lparr>metadata_name = ''data-1'', kind = ''PersistentVolumeClaim''\<rparr>,
      \<lparr>metadata_name = ''data-2'', kind = ''PersistentVolumeClaim''\<rparr>] = [''data-1'']
   \<and> findAssociatedResources
     \<lparr>pod_metadata_name = ''web-1'', metadata_labels = None,
      spec_volumes = Some [\<lparr>persistentVolumeClaim_claimName = Some ''data-1'',
                            configMap_name = None, secret_secretName = None\<rparr>],
      spec_containers = Some [\<lparr>env = Some [Some \<lparr>configMapKeyRef_name = Some ''app-config'',
                                                    secretKeyRef_name = None\<rparr>]\<rparr>]\<rparr>
     [\<lparr>metadata_name = ''app-config'', kind = ''ConfigMap''\<rparr>] = [''app-config'']
   \<and> findAssociatedResources pod resources =
       setToList (filter (\<lambda>n. n \<in> metadata_name ` set resources) (podRefs pod))
   \<and> findAssociatedResources pod (map (kind_update f) resources) =
       findAssociatedResources pod resources"
proof (intro conjI)
  show "findAssociatedResources pod resources =
       setToList (filter (\<lambda>n. n \<in> metadata_name ` set resources) (podRefs pod))"
    by (rule findAssociatedResources_eq)
  have "metadata_name ` set (map (kind_update f) resources) = metadata_name ` set resources"
    by (simp add: image_image)
  then show "findAssociatedResources pod (map (kind_update f) resources) =
       findAssociatedResources pod resources"
    by (simp only: findAssociatedResources_eq)
qed (simp_all add: assoc_eval)

text \<open>The last part of the statement above, on the list of storage claims relabelled.\<close>

theorem resources_selected_by_name_witness:
  "findAssociatedResources
     \<lparr>pod_metadata_name = ''web-1'', metadata_labels = None,
      spec_volumes = Some [\<lparr>persistentVolumeClaim_claimName = Some ''data-1'',
                            configMap_name = None, secret_secretName = None\<rparr>],
      spec_containers = Some [\<lparr>env = Some [Some \<lparr>configMapKeyRef_name = Some ''app-config'',
                                                    secretKeyRef_name = None\<rparr>]\<rparr>]\<rparr>
     [\<lparr>metadata_name = ''data-1'', kind = ''Secret''\<rparr>,
      \<lparr>metadata_name = ''data-2'', kind = ''Secret''\<rparr>] = [''data-1'']"
proof -
  let ?pod = "\<lparr>pod_metadata_name = ''web-1'', metadata_labels = None,
      spec_volumes = Some [\<lparr>persistentVolumeClaim_claimName = Some ''data-1'',
                            configMap_name = None, secret_secretName = None\<rparr>],
      spec_containers = Some [\<lparr>env = Some [Some \<lparr>configMapKeyRef_name = Some ''app-config'',
                                                    secretKeyRef_name = None\<rparr>]\<rparr>]\<rparr>"
  let ?cat = "[\<lparr>metadata_name = ''data-1'', kind = ''PersistentVolumeClaim''\<rparr>,
      \<lparr>metadata_name = ''data-2'', kind = ''PersistentVolumeClaim''\<rparr>]"
  note t = resources_selected_by_name[of ?pod ?cat "\<lambda>k. ''Secret''"]
  from t have a: "findAssociatedResources ?pod ?cat = [''data-1'']" by blast
  from t have d: "findAssociatedResources ?pod (map (kind_update (\<lambda>k. ''Secret'')) ?cat) =
      findAssociatedResources ?pod ?cat" by blast
  from d show ?thesis unfolding a by simp
qed

text \<open>
  C4 as stated expects a list holding \<open>data-1\<close>, \<open>app-config\<close> and \<open>data-2\<close> to resolve to
  \<open>data-1\<close> alone for the storage claims. The function returns both names that the pod
  refers to; and a config-map volume named like a storage claim is reported as that claim.
\<close>

theorem resources_not_filtered_by_kind_counterexample:
  "findAssociatedResources
     \<lparr>pod_metadata_name = ''web-1'', metadata_labels = None,
      spec_volumes = Some [\<lparr>persistentVolumeClaim_claimName = Some ''data-1'',
                            configMap_name = None, secret_secretName = None\<rparr>],
      spec_containers = Some [\<lparr>env = Some [Some \<lparr>configMapKeyRef_name = Some ''app-config'',
                                                    secretKeyRef_name = None\<rparr>]\<rparr>]\<rparr>
     [\<lparr>metadata_name = ''data-1'', kind = ''PersistentVolumeClaim''\<rparr>,
      \<lparr>metadata_name = ''app-config'', kind = ''ConfigMap''\<rparr>,
      \<lparr>metadata_name = ''data-2'', kind = ''PersistentVolumeClaim''\<rparr>]
     = [''data-1'', ''app-config'']
   \<and> findAssociatedResources
     \<lparr>pod_metadata_name = ''web-1'', metadata_labels = None,
      spec_volumes = Some [\<lparr>persistentVolumeClaim_claimName = None,
                            configMap_name = Some ''shared'', secret_secretName = None\<rparr>],
      spec_containers = None\<rparr>
     [\<lparr>metadata_name = ''shared'', kind = ''PersistentVolumeClaim''\<rparr>]
     = [''shared'']"
  by (simp add: assoc_eval)

text \<open>
  C8. A volume or an environment entry whose name is not in the list of objects is left
  out: the result is the one obtained without that volume or entry. The function has no
  other outcome than a list of names.
\<close>

theorem dangling_reference_omitted:
  assumes "n \<notin> metadata_name ` set resources"
  shows "(volumeRef v = Some n \<longrightarrow>
           findAssociatedResources (pod\<lparr>spec_volumes := Some (vs1 @ v # vs2)\<rparr>) resources =
           findAssociatedResources (pod\<lparr>spec_volumes := Some (vs1 @ vs2)\<rparr>) resources)
       \<and> (envRef e = Some n \<longrightarrow>
           findAssociatedResources
             (pod\<lparr>spec_containers := Some (cs1 @ c\<lparr>env := Some (es1 @ e # es2)\<rparr> # cs2)\<rparr>) resources =
           findAssociatedResources
             (pod\<lparr>spec_containers := Some (cs1 @ c\<lparr>env := Some (es1 @ es2)\<rparr> # cs2)\<rparr>) resources)"
proof (intro conjI impI)
  let ?P = "\<lambda>n. n \<in> metadata_name ` set resources"
  assume "volumeRef v = Some n"
  then have "filter ?P (List.map_filter volumeRef (vs1 @ v # vs2)) =
      filter ?P (List.map_filter volumeRef (vs1 @ vs2))"
    using assms by (rule filter_dangling)
  then show "findAssociatedResources (pod\<lparr>spec_volumes := Some (vs1 @ v # vs2)\<rparr>) resources =
           findAssociatedResources (pod\<lparr>spec_volumes := Some (vs1 @ vs2)\<rparr>) resources"
    by (simp add: findAssociatedResources_eq podRefs_def)
next
  let ?P = "\<lambda>n. n \<in> metadata_name ` set resources"
  assume "envRef e = Some n"
  then have "filter ?P (List.map_filter envRef (es1 @ e # es2)) =
      filter ?P (List.map_filter envRef (es1 @ es2))"
    using assms by (rule filter_dangling)
  then show "findAssociatedResources
             (pod\<lparr>spec_containers := Some (cs1 @ c\<lparr>env := Some (es1 @ e # es2)\<rparr> # cs2)\<rparr>) resources =
           findAssociatedResources
             (pod\<lparr>spec_containers := Some (cs1 @ c\<lparr>env := Some (es1 @ es2)\<rparr> # cs2)\<rparr>) resources"
    by (simp add: findAssociatedResources_eq podRefs_def)
qed

text \<open>
  The statement above for the name \<open>gone\<close>, once as a volume and once as an environment
  entry, against a list that holds \<open>data-1\<close> only.
\<close>

theorem dangling_reference_omitted_witness:
  "''gone'' \<notin> metadata_name ` set [\<lparr>metadata_name = ''data-1'', kind = ''PersistentVolumeClaim''\<rparr>]
   \<and> volumeRef \<lparr>persistentVolumeClaim_claimName = Some ''gone'', configMap_name = None,
                 secret_secretName = None\<rparr> = Some ''gone''
   \<and> envRef (Some \<lparr>configMapKeyRef_name = None, secretKeyRef_name = Some ''gone''\<rparr>) = Some ''gone''
   \<and> findAssociatedResources
        \<lparr>pod_metadata_name = ''web-1'', metadata_labels = None,
         spec_volumes = Some [\<lparr>persistentVolumeClaim_claimName = Some ''gone'', configMap_name = None,
                                secret_secretName = None\<rparr>,
                              \<lparr>persistentVolumeClaim_claimName = Some ''data-1'', configMap_name = None,
                                secret_secretName = None\<rparr>],
         spec_containers = None\<rparr>
        [\<lparr>metadata_name = ''data-1'', kind = ''PersistentVolumeClaim''\<rparr>]
      = findAssociatedResources
        \<lparr>pod_metadata_name = ''web-1'', metadata_labels = None,
         spec_volumes = Some [\<lparr>persistentVolumeClaim_claimName = Some ''data-1'', configMap_name = None,
                                secret_secretName = None\<rparr>],
         spec_containers = None\<rparr>
        [\<lparr>metadata_name = ''data-1'', kind = ''PersistentVolumeClaim''\<rparr>]
   \<and> findAssociatedResources
        \<lparr>pod_metadata_name = ''web-1'', metadata_labels = None,
         spec_volumes = Some [\<lparr>persistentVolumeClaim_claimName = Some ''data-1'', configMap_name = None,
                                secret_secretName = None\<rparr>],
         spec_containers =
           Some [\<lparr>env = Some [Some \<lparr>configMapKeyRef_name = None, secretKeyRef_name = Some ''gone''\<rparr>]\<rparr>]\<rparr>
        [\<lparr>metadata_name = ''data-1'', kind = ''PersistentVolumeClaim''\<rparr>]
      = findAssociatedResources
        \<lparr>pod_metadata_name = ''web-1'', metadata_labels = None,
         spec_volumes = Some [\<lparr>persistentVolumeClaim_claimName = Some ''data-1'', configMap_name = None,
                                secret_secretName = None\<rparr>],
         spec_containers = Some [\<lparr>env = Some []\<rparr>]\<rparr>
        [\<lparr>metadata_name = ''data-1'', kind = ''PersistentVolumeClaim''\<rparr>]"
proof -
  let ?res = "[\<lparr>metadata_name = ''data-1'', kind = ''PersistentVolumeClaim''\<rparr>]"
  let ?v = "\<lparr>persistentVolumeClaim_claimName = Some ''gone'', configMap_name = None,
                 secret_secretName = None\<rparr>"
  let ?w = "\<lparr>persistentVolumeClaim_claimName = Some ''data-1'', configMap_name = None,
                 secret_secretName = None\<rparr>"
  let ?e = "Some \<lparr>configMapKeyRef_name = None, secretKeyRef_name = Some ''gone''\<rparr>"
  let ?pod = "\<lparr>pod_metadata_name = ''web-1'', metadata_labels = None,
         spec_volumes = Some [?w], spec_containers = None\<rparr>"
  have h: "''gone'' \<notin> metadata_name ` set ?res" by simp
  have hv: "volumeRef ?v = Some ''gone''" by (simp add: volumeRef_def truthy_def)
  have he: "envRef ?e = Some ''gone''" by (simp add: envRef_def truthy_def)
  note t1 = dangling_reference_omitted[OF h, where v = ?v and pod = ?pod and ?vs1.0 = "[]"
      and ?vs2.0 = "[?w]"]
  note t2 = dangling_reference_omitted[OF h, where e = ?e and pod = ?pod and ?cs1.0 = "[]"
      and ?cs2.0 = "[]" and c = "\<lparr>env = None\<rparr>" and ?es1.0 = "[]" and ?es2.0 = "[]"]
  from t1 hv have a: "findAssociatedResources (?pod\<lparr>spec_volumes := Some ([] @ ?v # [?w])\<rparr>) ?res =
           findAssociatedResources (?pod\<lparr>spec_volumes := Some ([] @ [?w])\<rparr>) ?res" by blast
  from t2 he have b: "findAssociatedResources
             (?pod\<lparr>spec_containers := Some ([] @ \<lparr>env = None\<rparr>\<lparr>env := Some ([] @ ?e # [])\<rparr> # [])\<rparr>) ?res =
           findAssociatedResources
             (?pod\<lparr>spec_containers := Some ([] @ \<lparr>env = None\<rparr>\<lparr>env := Some ([] @ [])\<rparr> # [])\<rparr>) ?res" by blast
  from a b h hv he show ?thesis by simp
qed

section \<open>Lemmas on services, ingresses and sums\<close>

lemmas service_eval = findAssociatedServices_def serviceStep_def serviceName_def

lemma selects_iff:
  "selects labels s \<longleftrightarrow>
     (\<exists>sel. spec_selector s = Some sel \<and> (\<forall>(key, value) \<in> set sel. labels key = Some value))"
  by (cases "spec_selector s") (auto simp: selects_def list_all_iff)

lemma splitOn_nonempty: "splitOn sep s \<noteq> []"
  by (induction s) (auto split: list.splits)

lemma hd_splitOn: "hd (splitOn sep s) = takeWhile (\<lambda>c. c \<noteq> sep) s"
proof (induction s)
  case Nil
  show ?case by simp
next
  case (Cons c cs)
  then show ?case using splitOn_nonempty[of sep cs]
    by (cases "splitOn sep cs") auto
qed

lemma serviceName_cases:
  "serviceName s =
     (case spec_ports s of
        None \<Rightarrow> service_metadata_name s
      | Some [] \<Rightarrow> service_metadata_name s
      | Some (q # qs) \<Rightarrow>
          service_metadata_name s @ '':'' @ joinWith '','' (map numToString (q # qs)))"
  by (simp add: serviceName_def split: option.splits list.splits)

lemma basename_serviceName:
  assumes "CHR '':'' \<notin> set (service_metadata_name s)"
  shows "hd (splitOn (CHR '':'') (serviceName s)) = service_metadata_name s"
proof -
  have all: "\<forall>x \<in> set (service_metadata_name s). x \<noteq> CHR '':''" using assms by auto
  have a: "takeWhile (\<lambda>c. c \<noteq> CHR '':'') (service_metadata_name s) = service_metadata_name s"
    using all by simp
  have b: "takeWhile (\<lambda>c. c \<noteq> CHR '':'') (service_metadata_name s @ CHR '':'' # rest)
      = service_metadata_name s" for rest
    using all by (induction "service_metadata_name s") auto
  show ?thesis
    using a b by (simp add: hd_splitOn serviceName_cases split: option.splits list.splits)
qed

lemma pathStep_set:
  "set (foldl (pathStep bn rule) acc ps) =
     set acc \<union> {h. host rule = Some h \<and> h \<noteq> [] \<and>
                   (\<exists>p \<in> set ps. \<exists>b. backend_service_name p = Some b \<and> b \<noteq> [] \<and> b \<in> set bn)}"
proof (induction ps arbitrary: acc)
  case Nil
  show ?case by simp
next
  case (Cons p ps)
  have step: "set (pathStep bn rule acc p) =
     set acc \<union> {h. host rule = Some h \<and> h \<noteq> [] \<and>
                   (\<exists>b. backend_service_name p = Some b \<and> b \<noteq> [] \<and> b \<in> set bn)}"
    by (auto simp: pathStep_def truthy_iff)
  have "set (foldl (pathStep bn rule) acc (p # ps)) =
      set (pathStep bn rule acc p) \<union> {h. host rule = Some h \<and> h \<noteq> [] \<and>
                   (\<exists>p \<in> set ps. \<exists>b. backend_service_name p = Some b \<and> b \<noteq> [] \<and> b \<in> set bn)}"
    using Cons[of "pathStep bn rule acc p"] by simp
  then show ?case unfolding step by auto
qed

lemma ruleStep_set:
  "set (foldl (ruleStep bn) acc rs) =
     set acc \<union> {h. \<exists>rule \<in> set rs. host rule = Some h \<and> h \<noteq> [] \<and>
       (\<exists>ps. http_paths rule = Some ps \<and>
          (\<exists>p \<in> set ps. \<exists>b. backend_service_name p = Some b \<and> b \<noteq> [] \<and> b \<in> set bn))}"
proof (induction rs arbitrary: acc)
  case Nil
  show ?case by simp
next
  case (Cons r rs)
  have step: "set (ruleStep bn acc r) =
     set acc \<union> {h. host r = Some h \<and> h \<noteq> [] \<and>
       (\<exists>ps. http_paths r = Some ps \<and>
          (\<exists>p \<in> set ps. \<exists>b. backend_service_name p = Some b \<and> b \<noteq> [] \<and> b \<in> set bn))}"
    by (cases "http_paths r") (simp_all add: ruleStep_def pathStep_set)
  have "set (foldl (ruleStep bn) acc (r # rs)) =
      set (ruleStep bn acc r) \<union> {h. \<exists>rule \<in> set rs. host rule = Some h \<and> h \<noteq> [] \<and>
       (\<exists>ps. http_paths rule = Some ps \<and>
          (\<exists>p \<in> set ps. \<exists>b. backend_service_name p = Some b \<and> b \<noteq> [] \<and> b \<in> set bn))}"
    using Cons[of "ruleStep bn acc r"] by simp
  then show ?case unfolding step by auto
qed

lemma ingressStep_set:
  "set (foldl (ingressStep bn) acc ings) =
     set acc \<union> {h. \<exists>ing \<in> set ings. \<exists>rs. spec_rules ing = Some rs \<and>
       (\<exists>rule \<in> set rs. host rule = Some h \<and> h \<noteq> [] \<and>
         (\<exists>ps. http_paths rule = Some ps \<and>
            (\<exists>p \<in> set ps. \<exists>b. backend_service_name p = Some b \<and> b \<noteq> [] \<and> b \<in> set bn)))}"
proof (induction ings arbitrary: acc)
  case Nil
  show ?case by simp
next
  case (Cons i ings)
  have step: "set (ingressStep bn acc i) =
     set acc \<union> {h. \<exists>rs. spec_rules i = Some rs \<and>
       (\<exists>rule \<in> set rs. host rule = Some h \<and> h \<noteq> [] \<and>
         (\<exists>ps. http_paths rule = Some ps \<and>
            (\<exists>p \<in> set ps. \<exists>b. backend_service_name p = Some b \<and> b \<noteq> [] \<and> b \<in> set bn)))}"
    by (cases "spec_rules i") (simp_all add: ingressStep_def ruleStep_set)
  have "set (foldl (ingressStep bn) acc (i # ings)) =
      set (ingressStep bn acc i) \<union> {h. \<exists>ing \<in> set ings. \<exists>rs. spec_rules ing = Some rs \<and>
       (\<exists>rule \<in> set rs. host rule = Some h \<and> h \<noteq> [] \<and>
         (\<exists>ps. http_paths rule = Some ps \<and>
            (\<exists>p \<in> set ps. \<exists>b. backend_service_name p = Some b \<and> b \<noteq> [] \<and> b \<in> set bn)))}"
    using Cons[of "ingressStep bn acc i"] by simp
  then show ?case unfolding step by auto
qed

lemma findAssociatedIngresses_set:
  "set (findAssociatedIngresses serviceNames ings) =
     {h. \<exists>ing \<in> set ings. \<exists>rs. spec_rules ing = Some rs \<and>
       (\<exists>rule \<in> set rs. host rule = Some h \<and> h \<noteq> [] \<and>
         (\<exists>ps. http_paths rule = Some ps \<and>
            (\<exists>p \<in> set ps. \<exists>b. backend_service_name p = Some b \<and> b \<noteq> [] \<and>
               b \<in> takeWhile (\<lambda>c. c \<noteq> CHR '':'') ` set serviceNames)))}"
proof -
  have "map (\<lambda>s. hd (splitOn (CHR '':'') s)) serviceNames =
      map (takeWhile (\<lambda>c. c \<noteq> CHR '':'')) serviceNames"
    by (simp add: hd_splitOn)
  then show ?thesis
    by (simp add: findAssociatedIngresses_def Let_def set_setToList ingressStep_set)
qed

lemmas ingress_eval = findAssociatedIngresses_def ingressStep_def ruleStep_def pathStep_def
  truthy_def setToList_def

lemma numToString_ports: "numToString 80 = ''80''" "numToString 443 = ''443''"
  "numToString 5432 = ''5432''"
  by (simp_all add: numToString.simps digitChar_def)

lemma jadd_commute: "jadd a b = jadd b a"
  by (cases a; cases b) simp_all

lemma jadd_assoc: "jadd (jadd a b) c = jadd a (jadd b c)"
  by (cases a; cases b; cases c) simp_all

lemma jadd_zero: "jadd (Num 0) a = a" "jadd a (Num 0) = a"
  by (cases a; simp)+

lemma foldl_jadd: "foldl jadd a xs = jadd a (foldl jadd (Num 0) xs)"
proof (induction xs arbitrary: a)
  case Nil
  show ?case by (simp add: jadd_zero)
next
  case (Cons x xs)
  have "foldl jadd a (x # xs) = foldl jadd (jadd a x) xs" by simp
  also have "\<dots> = jadd (jadd a x) (foldl jadd (Num 0) xs)" by (rule Cons)
  also have "\<dots> = jadd a (jadd x (foldl jadd (Num 0) xs))" by (rule jadd_assoc)
  also have "jadd x (foldl jadd (Num 0) xs) = foldl jadd x xs" by (rule Cons[symmetric])
  finally show ?case by (simp add: jadd_zero)
qed

lemma sumUsage_append: "sumUsage (xs @ ys) = jadd (sumUsage xs) (sumUsage ys)"
  using foldl_jadd[of "foldl jadd (Num 0) xs" ys] by (simp add: sumUsage_def)

lemma sumUsage_Num: "sumUsage (map Num cs) = Num (sum_list cs)"
proof (induction cs rule: rev_induct)
  case Nil
  show ?case by (simp add: sumUsage_def)
next
  case (snoc c cs)
  then show ?case by (simp add: sumUsage_append) (simp add: sumUsage_def)
qed

lemma sumUsage_simps: "sumUsage [] = Num 0" "sumUsage [a] = a" "sumUsage [a, b] = jadd a b"
  "sumUsage [a, b, c] = jadd (jadd a b) c"
  by (simp_all add: sumUsage_def jadd_zero)

section \<open>Services and ingresses of a pod\<close>

text \<open>
  C2 (as amended). A pod without a label object has no associated service. For a pod with
  labels, the associated services are those whose selector is present and has every
  key in the labels with an equal value, each rendered by \<open>serviceName\<close>, in the order of
  the list. A service without a selector is never associated; a selector that is present
  but empty is satisfied by every pod that has labels.
\<close>

theorem services_matched_by_selector:
  "(metadata_labels pod = None \<longrightarrow> findAssociatedServices pod svcs = [])
   \<and> (metadata_labels pod = Some labels \<longrightarrow>
        findAssociatedServices pod svcs = map serviceName (filter (selects labels) svcs))
   \<and> (selects labels s \<longleftrightarrow>
        (\<exists>sel. spec_selector s = Some sel \<and> (\<forall>(key, value) \<in> set sel. labels key = Some value)))
   \<and> (spec_selector s = None \<longrightarrow> \<not> selects labels s)
   \<and> (spec_selector s = Some [] \<longrightarrow> selects labels s)"
proof (intro conjI impI)
  show "selects labels s \<longleftrightarrow>
        (\<exists>sel. spec_selector s = Some sel \<and> (\<forall>(key, value) \<in> set sel. labels key = Some value))"
    by (rule selects_iff)
qed (simp_all add: findAssociatedServices_eq selects_def)

text \<open>
  The statement above for the labels \<open>app = web\<close>, \<open>tier = frontend\<close>: the selector
  \<open>app = web\<close> matches, the selector \<open>app = web\<close>, \<open>tier = backend\<close> does not, and a service
  without selector does not.
\<close>

theorem services_matched_by_selector_witness:
  "findAssociatedServices
     \<lparr>pod_metadata_name = ''web-1'',
      metadata_labels = Some (map_of [(''app'', ''web''), (''tier'', ''frontend'')]),
      spec_volumes = None, spec_containers = None\<rparr>
     [\<lparr>service_metadata_name = ''web'', spec_selector = Some [(''app'', ''web'')], spec_ports = None\<rparr>,
      \<lparr>service_metadata_name = ''back'',
       spec_selector = Some [(''app'', ''web''), (''tier'', ''backend'')], spec_ports = None\<rparr>,
      \<lparr>service_metadata_name = ''external'', spec_selector = None, spec_ports = None\<rparr>]
   = [''web'']"
proof -
  let ?labels = "map_of [(''app'', ''web''), (''tier'', ''frontend'')]"
  let ?pod = "\<lparr>pod_metadata_name = ''web-1'', metadata_labels = Some ?labels,
      spec_volumes = None, spec_containers = None\<rparr>"
  let ?svcs = "[\<lparr>service_metadata_name = ''web'', spec_selector = Some [(''app'', ''web'')], spec_ports = None\<rparr>,
      \<lparr>service_metadata_name = ''back'',
       spec_selector = Some [(''app'', ''web''), (''tier'', ''backend'')], spec_ports = None\<rparr>,
      \<lparr>service_metadata_name = ''external'', spec_selector = None, spec_ports = None\<rparr>]"
  have l: "metadata_labels ?pod = Some ?labels" by simp
  from services_matched_by_selector[of ?pod ?svcs ?labels] l
  have "findAssociatedServices ?pod ?svcs = map serviceName (filter (selects ?labels) ?svcs)"
    by blast
  then show ?thesis by (simp add: selects_def serviceName_def)
qed

text \<open>
  C2 as stated has a present but empty selector match nothing. The test
  \<open>service.spec.selector\<close> accepts the empty object and \<open>every\<close> holds of no entries, so
  the service is associated with a pod that has labels.
\<close>

theorem empty_selector_matches_counterexample:
  "findAssociatedServices
     \<lparr>pod_metadata_name = ''web-1'', metadata_labels = Some (map_of [(''app'', ''web'')]),
      spec_volumes = None, spec_containers = None\<rparr>
     [\<lparr>service_metadata_name = ''catch-all'', spec_selector = Some [], spec_ports = None\<rparr>]
   = [''catch-all'']"
  by (simp add: service_eval)

text \<open>
  C7. A matching service is pushed as its name when it declares no port and as the name,
  a colon and the comma-separated ports in their declared order otherwise. The ingress
  resolution keeps of each such string the text before the first colon, which is the name
  of the service when that name has no colon. A host is in the result exactly when some
  rule has that host, non-empty, and some path of the rule has a backend service name
  that is non-empty and equal to one of these base names; a matching rule without host
  adds nothing. The result has no repetition.
\<close>

theorem services_formatted_and_ingresses_resolved:
  "(metadata_labels pod = Some labels \<longrightarrow>
      findAssociatedServices pod svcs = map serviceName (filter (selects labels) svcs))
   \<and> (spec_ports s = None \<or> spec_ports s = Some [] \<longrightarrow> serviceName s = service_metadata_name s)
   \<and> (spec_ports s = Some (q # qs) \<longrightarrow>
      serviceName s = service_metadata_name s @ '':'' @ joinWith '','' (map numToString (q # qs)))
   \<and> hd (splitOn (CHR '':'') x) = takeWhile (\<lambda>c. c \<noteq> CHR '':'') x
   \<and> (CHR '':'' \<notin> set (service_metadata_name s) \<longrightarrow>
      hd (splitOn (CHR '':'') (serviceName s)) = service_metadata_name s)
   \<and> (h \<in> set (findAssociatedIngresses serviceNames ings) \<longleftrightarrow>
      (\<exists>ing \<in> set ings. \<exists>rs. spec_rules ing = Some rs \<and>
        (\<exists>rule \<in> set rs. host rule = Some h \<and> h \<noteq> [] \<and>
          (\<exists>ps. http_paths rule = Some ps \<and>
            (\<exists>p \<in> set ps. \<exists>b. backend_service_name p = Some b \<and> b \<noteq> [] \<and>
               b \<in> takeWhile (\<lambda>c. c \<noteq> CHR '':'') ` set serviceNames)))))
   \<and> distinct (findAssociatedIngresses serviceNames ings)"
proof (intro conjI impI)
  assume "metadata_labels pod = Some labels"
  then show "findAssociatedServices pod svcs = map serviceName (filter (selects labels) svcs)"
    by (simp add: findAssociatedServices_eq)
next
  assume "spec_ports s = None \<or> spec_ports s = Some []"
  then show "serviceName s = service_metadata_name s"
    by (auto simp: serviceName_cases)
next
  assume "spec_ports s = Some (q # qs)"
  then show "serviceName s =
      service_metadata_name s @ '':'' @ joinWith '','' (map numToString (q # qs))"
    by (simp add: serviceName_cases)
next
  show "hd (splitOn (CHR '':'') x) = takeWhile (\<lambda>c. c \<noteq> CHR '':'') x"
    by (rule hd_splitOn)
next
  assume "CHR '':'' \<notin> set (service_metadata_name s)"
  then show "hd (splitOn (CHR '':'') (serviceName s)) = service_metadata_name s"
    by (rule basename_serviceName)
next
  show "h \<in> set (findAssociatedIngresses serviceNames ings) \<longleftrightarrow>
      (\<exists>ing \<in> set ings. \<exists>rs. spec_rules ing = Some rs \<and>
        (\<exists>rule \<in> set rs. host rule = Some h \<and> h \<noteq> [] \<and>
          (\<exists>ps. http_paths rule = Some ps \<and>
            (\<exists>p \<in> set ps. \<exists>b. backend_service_name p = Some b \<and> b \<noteq> [] \<and>
               b \<in> takeWhile (\<lambda>c. c \<noteq> CHR '':'') ` set serviceNames))))"
    by (simp add: findAssociatedIngresses_set)
next
  show "distinct (findAssociatedIngresses serviceNames ings)"
    by (simp add: findAssociatedIngresses_def Let_def distinct_setToList)
qed

text \<open>
  The statement above on two services selected by \<open>app = web\<close>, one with the ports 80 and
  443, and on ingresses that name them: the rule without host is skipped and the host
  \<open>example.com\<close>, reached twice, is listed once.
\<close>

theorem services_formatted_and_ingresses_resolved_witness:
  "findAssociatedServices
     \<lparr>pod_metadata_name = ''web-1'', metadata_labels = Some (map_of [(''app'', ''web'')]),
      spec_volumes = None, spec_containers = None\<rparr>
     [\<lparr>service_metadata_name = ''svc1'', spec_selector = Some [(''app'', ''web'')],
       spec_ports = Some [80, 443]\<rparr>,
      \<lparr>service_metadata_name = ''svc2'', spec_selector = Some [(''app'', ''web'')],
       spec_ports = None\<rparr>,
      \<lparr>service_metadata_name = ''db'', spec_selector = Some [(''app'', ''db'')],
       spec_ports = Some [5432]\<rparr>]
     = [''svc1:80,443'', ''svc2'']
   \<and> findAssociatedIngresses [''svc1:80,443'', ''svc2'']
     [\<lparr>spec_rules = Some
        [\<lparr>host = Some ''example.com'',
          http_paths = Some [\<lparr>backend_service_name = Some ''svc1''\<rparr>]\<rparr>,
         \<lparr>host = None, http_paths = Some [\<lparr>backend_service_name = Some ''svc2''\<rparr>]\<rparr>,
         \<lparr>host = Some ''db.example.com'',
          http_paths = Some [\<lparr>backend_service_name = Some ''db''\<rparr>]\<rparr>]\<rparr>,
      \<lparr>spec_rules = Some
        [\<lparr>host = Some ''example.com'',
          http_paths = Some [\<lparr>backend_service_name = Some ''svc2''\<rparr>]\<rparr>]\<rparr>]
     = [''example.com'']"
proof -
  let ?labels = "map_of [(''app'', ''web'')]"
  let ?pod = "\<lparr>pod_metadata_name = ''web-1'', metadata_labels = Some ?labels,
      spec_volumes = None, spec_containers = None\<rparr>"
  let ?svcs = "[\<lparr>service_metadata_name = ''svc1'', spec_selector = Some [(''app'', ''web'')],
       spec_ports = Some [80, 443]\<rparr>,
      \<lparr>service_metadata_name = ''svc2'', spec_selector = Some [(''app'', ''web'')],
       spec_ports = None\<rparr>,
      \<lparr>service_metadata_name = ''db'', spec_selector = Some [(''app'', ''db'')],
       spec_ports = Some [5432]\<rparr>]"
  have l: "metadata_labels ?pod = Some ?labels" by simp
  from services_formatted_and_ingresses_resolved[where pod = ?pod and labels = ?labels
      and svcs = ?svcs] l
  have "findAssociatedServices ?pod ?svcs = map serviceName (filter (selects ?labels) ?svcs)"
    by blast
  then have a: "findAssociatedServices ?pod ?svcs = [''svc1:80,443'', ''svc2'']"
    by (simp add: selects_def serviceName_def numToString_ports)
  show ?thesis unfolding a by (simp add: ingress_eval)
qed

section \<open>Totals and assembly of the namespace\<close>

text \<open>
  C9. The sum of a list of samples is the field-wise sum: it is the pair of zeros on the
  empty list, it does not depend on the grouping or on the order of the samples, and on
  samples without \<open>NaN\<close> it is the ordinary sum of the numbers. The CPU and memory totals
  of a namespace are these sums over the usages of its pods, each taken as a number.
\<close>

theorem aggregate_is_addition:
  "aggregate [] = \<lparr>cpu = Num 0, memory = Num 0\<rparr>
   \<and> aggregate [a, b, c] = aggregate [aggregate [a, b], c]
   \<and> aggregate [a, b] = aggregate [b, a]
   \<and> aggregate [aggregate [a, b], c] = aggregate [a, aggregate [b, c]]
   \<and> aggregate (xs @ ys) = aggregate [aggregate xs, aggregate ys]
   \<and> aggregate (xs @ ys) = aggregate (ys @ xs)
   \<and> aggregate (map (\<lambda>(x, y). \<lparr>cpu = Num x, memory = Num y\<rparr>) qs)
        = \<lparr>cpu = Num (sum_list (map fst qs)), memory = Num (sum_list (map snd qs))\<rparr>
   \<and> ns_cpuUsage (mkNamespace namespaceName podMetricsMap cat items)
        = sumUsage (map (\<lambda>p. toNumber (pod_cpuUsage p))
                     (ns_pods (mkNamespace namespaceName podMetricsMap cat items)))
   \<and> ns_memoryUsage (mkNamespace namespaceName podMetricsMap cat items)
        = sumUsage (map (\<lambda>p. toNumber (pod_memoryUsage p))
                     (ns_pods (mkNamespace namespaceName podMetricsMap cat items)))
   \<and> \<lparr>cpu = ns_cpuUsage (mkNamespace namespaceName podMetricsMap cat items),
       memory = ns_memoryUsage (mkNamespace namespaceName podMetricsMap cat items)\<rparr>
        = aggregate (map (\<lambda>p. \<lparr>cpu = toNumber (pod_cpuUsage p),
                                  memory = toNumber (pod_memoryUsage p)\<rparr>)
                       (ns_pods (mkNamespace namespaceName podMetricsMap cat items)))"
proof (intro conjI)
  show "aggregate [a, b] = aggregate [b, a]"
    by (simp add: aggregate_def sumUsage_simps jadd_commute)
  show "aggregate [aggregate [a, b], c] = aggregate [a, aggregate [b, c]]"
    by (simp add: aggregate_def sumUsage_simps jadd_assoc)
  show "aggregate (xs @ ys) = aggregate [aggregate xs, aggregate ys]"
    by (simp add: aggregate_def sumUsage_simps sumUsage_append)
  show "aggregate (xs @ ys) = aggregate (ys @ xs)"
    by (simp add: aggregate_def sumUsage_append jadd_commute)
  have "map cpu (map (\<lambda>(x, y). \<lparr>cpu = Num x, memory = Num y\<rparr>) qs) = map Num (map fst qs)"
    and "map memory (map (\<lambda>(x, y). \<lparr>cpu = Num x, memory = Num y\<rparr>) qs) = map Num (map snd qs)"
    by (simp_all add: case_prod_unfold)
  then show "aggregate (map (\<lambda>(x, y). \<lparr>cpu = Num x, memory = Num y\<rparr>) qs)
        = \<lparr>cpu = Num (sum_list (map fst qs)), memory = Num (sum_list (map snd qs))\<rparr>"
    by (simp only: aggregate_def sumUsage_Num)
  show "\<lparr>cpu = ns_cpuUsage (mkNamespace namespaceName podMetricsMap cat items),
       memory = ns_memoryUsage (mkNamespace namespaceName podMetricsMap cat items)\<rparr>
        = aggregate (map (\<lambda>p. \<lparr>cpu = toNumber (pod_cpuUsage p),
                                  memory = toNumber (pod_memoryUsage p)\<rparr>)
                       (ns_pods (mkNamespace namespaceName podMetricsMap cat items)))"
    by (simp add: aggregate_def sumUsage_def mkNamespace_def Let_def comp_def foldl_map)
  show "ns_cpuUsage (mkNamespace namespaceName podMetricsMap cat items)
        = sumUsage (map (\<lambda>p. toNumber (pod_cpuUsage p))
                     (ns_pods (mkNamespace namespaceName podMetricsMap cat items)))"
    by (simp add: sumUsage_def mkNamespace_def Let_def foldl_map)
  show "ns_memoryUsage (mkNamespace namespaceName podMetricsMap cat items)
        = sumUsage (map (\<lambda>p. toNumber (pod_memoryUsage p))
                     (ns_pods (mkNamespace namespaceName podMetricsMap cat items)))"
    by (simp add: sumUsage_def mkNamespace_def Let_def foldl_map)
qed (simp_all add: aggregate_def sumUsage_simps)

text \<open>The statement above on three samples.\<close>

theorem aggregate_is_addition_witness:
  "aggregate [\<lparr>cpu = Num 250, memory = Num 12\<rparr>, \<lparr>cpu = Num 100, memory = Num (3 / 2)\<rparr>,
              \<lparr>cpu = Num 2000, memory = Num 1024\<rparr>]
     = \<lparr>cpu = Num 2350, memory = Num (2075 / 2)\<rparr>"
proof -
  from aggregate_is_addition[where qs = "[(250 :: rat, 12 :: rat), (100, 3 / 2), (2000, 1024)]"]
  have "aggregate (map (\<lambda>(x, y). \<lparr>cpu = Num x, memory = Num y\<rparr>)
          [(250 :: rat, 12 :: rat), (100, 3 / 2), (2000, 1024)])
        = \<lparr>cpu = Num (sum_list (map fst [(250 :: rat, 12 :: rat), (100, 3 / 2), (2000, 1024)])),
           memory = Num (sum_list (map snd [(250 :: rat, 12 :: rat), (100, 3 / 2), (2000, 1024)]))\<rparr>"
    by blast
  then show ?thesis by simp
qed

text \<open>
  A pod whose name is not to be found in the metrics object, neither as a sample nor
  along the prototype chain, has the usage 0. Whatever the metrics object holds, the pod
  keeps its position in the namespace and its association lists are the ones computed
  from the pod and the catalogs.
\<close>

lemma getProperty_absent:
  assumes "podMetricsMap key = None" and "key \<notin> set objectPrototypeKeys"
    and "podMetricsMap ''__proto__'' = None"
  shows "getProperty podMetricsMap key = Undefined"
  using assms by (simp add: getProperty_def)

lemma pod_without_property_zero_usage:
  assumes "getProperty podMetricsMap (pod_metadata_name pod) = Undefined"
  shows "pod_cpuUsage (mkPod podMetricsMap cat pod) = Some (Num 0)
       \<and> pod_memoryUsage (mkPod podMetricsMap cat pod) = Some (Num 0)"
  using assms by (simp add: mkPod_def Let_def)

lemma pod_kept_with_associations:
  "pod_name (mkPod podMetricsMap cat pod) = pod_metadata_name pod
   \<and> pod_pvcs (mkPod podMetricsMap cat pod) = findAssociatedResources pod (cat_pvcs cat)
   \<and> pod_configMaps (mkPod podMetricsMap cat pod) = findAssociatedResources pod (cat_configMaps cat)
   \<and> pod_secrets (mkPod podMetricsMap cat pod) = findAssociatedResources pod (cat_secrets cat)
   \<and> pod_services (mkPod podMetricsMap cat pod) = findAssociatedServices pod (cat_services cat)
   \<and> pod_ingresses (mkPod podMetricsMap cat pod) =
        findAssociatedIngresses (findAssociatedServices pod (cat_services cat)) (cat_ingresses cat)
   \<and> ns_pods (mkNamespace namespaceName podMetricsMap cat (before @ pod # after))
        ! length before = mkPod podMetricsMap cat pod
   \<and> ns_podCount (mkNamespace namespaceName podMetricsMap cat (before @ pod # after))
        = length before + 1 + length after"
proof -
  have "ns_pods (mkNamespace namespaceName podMetricsMap cat (before @ pod # after))
      = map (mkPod podMetricsMap cat) before @ mkPod podMetricsMap cat pod
          # map (mkPod podMetricsMap cat) after"
    by (simp add: mkNamespace_def Let_def)
  then have "ns_pods (mkNamespace namespaceName podMetricsMap cat (before @ pod # after))
            ! length before = mkPod podMetricsMap cat pod"
    by (simp add: nth_append)
  moreover have "ns_podCount (mkNamespace namespaceName podMetricsMap cat (before @ pod # after))
            = length before + 1 + length after"
    by (simp add: mkNamespace_def Let_def)
  ultimately show ?thesis by (simp add: mkPod_def Let_def)
qed

text \<open>
  C10. A pod without a line in the metrics output should carry the usage 0. The default
  of \<open>podMetricsMap[podName] || { cpu: 0, memory: 0 }\<close> applies only when the read gives a
  falsy value. For the pod name \<open>constructor\<close> the read finds the member of that name of
  \<open>Object.prototype\<close>, which has no \<open>cpu\<close> and no \<open>memory\<close>: the pod stays in the list with
  its associations, but its usage is \<open>undefined\<close> and the totals of the namespace are
  \<open>NaN\<close>. The pod \<open>web-2\<close>, equally without a line, has the usage 0.
\<close>

theorem inherited_name_escapes_zero_default:
  "parsePodMetrics_sa ''web-1 250m 12Mi'' ''web-2'' = None
   \<and> parsePodMetrics_sa ''web-1 250m 12Mi'' ''constructor'' = None
   \<and> mkNamespace ''prod'' (parsePodMetrics_sa ''web-1 250m 12Mi'')
        \<lparr>cat_pvcs = [\<lparr>metadata_name = ''data-1'', kind = ''PersistentVolumeClaim''\<rparr>],
         cat_configMaps = [], cat_secrets = [], cat_services = [], cat_ingresses = []\<rparr>
        [\<lparr>pod_metadata_name = ''web-1'', metadata_labels = None, spec_volumes = None,
          spec_containers = None\<rparr>,
         \<lparr>pod_metadata_name = ''web-2'', metadata_labels = None, spec_volumes = None,
          spec_containers = None\<rparr>,
         \<lparr>pod_metadata_name = ''constructor'', metadata_labels = None,
          spec_volumes = Some [\<lparr>persistentVolumeClaim_claimName = Some ''data-1'',
                                configMap_name = None, secret_secretName = None\<rparr>],
          spec_containers = None\<rparr>]
     = \<lparr>ns_id = ''prod'', ns_name = ''prod'', ns_podCount = 3,
        ns_cpuUsage = NaN, ns_memoryUsage = NaN,
        ns_pods =
          [\<lparr>pod_id = ''web-1'', pod_name = ''web-1'',
            pod_cpuUsage = Some (Num 250), pod_memoryUsage = Some (Num 12),
            pod_pvcs = [], pod_configMaps = [], pod_secrets = [], pod_services = [],
            pod_ingresses = []\<rparr>,
           \<lparr>pod_id = ''web-2'', pod_name = ''web-2'',
            pod_cpuUsage = Some (Num 0), pod_memoryUsage = Some (Num 0),
            pod_pvcs = [], pod_configMaps = [], pod_secrets = [], pod_services = [],
            pod_ingresses = []\<rparr>,
           \<lparr>pod_id = ''constructor'', pod_name = ''constructor'',
            pod_cpuUsage = None, pod_memoryUsage = None,
            pod_pvcs = [''data-1''], pod_configMaps = [], pod_secrets = [], pod_services = [],
            pod_ingresses = []\<rparr>]\<rparr>"
proof -
  have a: "isToken ''web-1''" and b: "isToken ''250m''" and c: "isToken ''12Mi''"
    by (simp_all add: isToken_def isWhite_def)
  have m: "parsePodMetrics_sa ''web-1 250m 12Mi'' = [''web-1'' \<mapsto> \<lparr>cpu = Num 250, memory = Num 12\<rparr>]"
    using parsePodMetrics_sa_line[OF a b c] by (simp add: field_eval)
  show ?thesis
    unfolding m
    by (simp add: mkNamespace_def mkPod_def Let_def getProperty_def objectPrototypeKeys_def
        assoc_eval findAssociatedServices_def findAssociatedIngresses_def)
qed

end
